theory Spec2Isabelle
  imports Main
begin

section \<open>Entity to DTO converter: the parse-classify-generate pipeline\<close>

text \<open>
  A shallow embedding of \<^verbatim>\<open>src/client/src/app/page.tsx\<close> (the second document of that
  file, the converter page): \<^verbatim>\<open>parseEntity\<close>, the field classifiers,
  \<^verbatim>\<open>getValidatorDecorators\<close>, \<^verbatim>\<open>extractEnumImports\<close>, \<^verbatim>\<open>genDocDto\<close>,
  \<^verbatim>\<open>genResponseDto\<close> and \<^verbatim>\<open>toRelationResDtoType\<close>.

  A JavaScript string is a sequence of code units; here it is a \<^typ>\<open>string\<close>, one
  \<^typ>\<open>char\<close> per code unit, so the model covers the code units 0 to 255. Each regular
  expression of the source is a function deciding whether the backtracking matcher finds a
  match; the comment at each one gives the expression it stands for.
\<close>

subsection \<open>Characters and the string methods the source calls\<close>

definition LF :: char where
  "LF = CHR 0x0A"

definition CR :: char where
  "CR = CHR 0x0D"

definition nl :: string where
  "nl = [CHR 0x0A]"

text \<open>
  The class \<^verbatim>\<open>\s\<close> of a regular expression, which is also what \<^verbatim>\<open>trim\<close> removes:
  tab, line feed, vertical tab, form feed, carriage return, space, no-break space.
\<close>

definition isSpace :: "char \<Rightarrow> bool" where
  "isSpace c = (c = CHR 0x09 \<or> c = CHR 0x0A \<or> c = CHR 0x0B \<or> c = CHR 0x0C \<or> c = CHR 0x0D
     \<or> c = CHR 0x20 \<or> c = CHR 0xA0)"

text \<open>The classes \<^verbatim>\<open>[a-z]\<close>, \<^verbatim>\<open>[A-Z]\<close>, \<^verbatim>\<open>[0-9]\<close> and \<^verbatim>\<open>\w\<close>.\<close>

definition isLower :: "char \<Rightarrow> bool" where
  "isLower c = (c \<in> set ''abcdefghijklmnopqrstuvwxyz'')"

definition isUpper :: "char \<Rightarrow> bool" where
  "isUpper c = (c \<in> set ''ABCDEFGHIJKLMNOPQRSTUVWXYZ'')"

definition isDigit :: "char \<Rightarrow> bool" where
  "isDigit c = (c \<in> set ''0123456789'')"

definition isWordChar :: "char \<Rightarrow> bool" where
  "isWordChar c = (isLower c \<or> isUpper c \<or> isDigit c \<or> c = CHR ''_'')"

text \<open>The first character of an identifier, \<^verbatim>\<open>[A-Za-z_]\<close>.\<close>

definition isIdentStart :: "char \<Rightarrow> bool" where
  "isIdentStart c = (isLower c \<or> isUpper c \<or> c = CHR ''_'')"

text \<open>
  What \<^verbatim>\<open>.\<close> does not match: a line terminator (line feed and carriage return, among
  the code units modelled).
\<close>

definition isLineTerminator :: "char \<Rightarrow> bool" where
  "isLineTerminator c = (c = CHR 0x0A \<or> c = CHR 0x0D)"

definition isQuote :: "char \<Rightarrow> bool" where
  "isQuote c = (c = CHR 0x27 \<or> c = CHR 0x22)"

text \<open>
  Case folding of the flag \<^verbatim>\<open>i\<close>: among the code units modelled only the ASCII letters
  have a partner, so two characters agree if their lower-case forms do.
\<close>

definition lowerAscii :: "char \<Rightarrow> char" where
  "lowerAscii c =
     (case map_of (zip ''ABCDEFGHIJKLMNOPQRSTUVWXYZ'' ''abcdefghijklmnopqrstuvwxyz'') c of
        Some d \<Rightarrow> d
      | None \<Rightarrow> c)"

definition startsWith :: "string \<Rightarrow> string \<Rightarrow> bool" where
  "startsWith s p = (take (length p) s = p)"

definition endsWith :: "string \<Rightarrow> string \<Rightarrow> bool" where
  "endsWith s p = (length p \<le> length s \<and> drop (length s - length p) s = p)"

fun tails :: "'a list \<Rightarrow> 'a list list" where
  "tails [] = [[]]"
| "tails (x # xs) = (x # xs) # tails xs"

definition includes_str :: "string \<Rightarrow> string \<Rightarrow> bool" where
  "includes_str s p = list_ex (\<lambda>r. startsWith r p) (tails s)"

definition trim :: "string \<Rightarrow> string" where
  "trim s = rev (dropWhile isSpace (rev (dropWhile isSpace s)))"

text \<open>\<^verbatim>\<open>xs.join(sep)\<close>.\<close>

fun joinWith :: "string \<Rightarrow> string list \<Rightarrow> string" where
  "joinWith sep [] = []"
| "joinWith sep [x] = x"
| "joinWith sep (x # y # ys) = x @ sep @ joinWith sep (y # ys)"

text \<open>
  \<^verbatim>\<open>source.split(/\r?\n/)\<close>: a line ends at a line feed, and a carriage return just
  before that line feed belongs to the separator. The empty text is one empty line.
\<close>

definition consHead :: "char \<Rightarrow> string list \<Rightarrow> string list" where
  "consHead c ls = (case ls of [] \<Rightarrow> [[c]] | l # rest \<Rightarrow> (c # l) # rest)"

fun splitLines :: "string \<Rightarrow> string list" where
  "splitLines [] = [[]]"
| "splitLines (c # cs) =
     (if c = LF then [] # splitLines cs
      else if c = CR then
        (case cs of
           [] \<Rightarrow> consHead c (splitLines cs)
         | d # ds \<Rightarrow> if d = LF then [] # splitLines ds else consHead c (splitLines cs))
      else consHead c (splitLines cs))"

text \<open>
  \<^verbatim>\<open>s.replace(/Entity$/, r)\<close> and its like: a suffix of the whole text is replaced
  (\<^verbatim>\<open>$\<close> without the flag \<^verbatim>\<open>m\<close> is the end of the text), or the text is unchanged.
\<close>

definition replaceSuffix :: "string \<Rightarrow> string \<Rightarrow> string \<Rightarrow> string" where
  "replaceSuffix suf r s =
     (if endsWith s suf then take (length s - length suf) s @ r else s)"

subsection \<open>Pieces of the regular expressions\<close>

text \<open>A literal at the start of the text: what is left after it.\<close>

definition lit :: "string \<Rightarrow> string \<Rightarrow> string option" where
  "lit p s = (if startsWith s p then Some (drop (length p) s) else None)"

text \<open>A literal under the flag \<^verbatim>\<open>i\<close>.\<close>

definition litI :: "string \<Rightarrow> string \<Rightarrow> string option" where
  "litI p s =
     (if map lowerAscii (take (length p) s) = map lowerAscii p then Some (drop (length p) s)
      else None)"

text \<open>
  \<^verbatim>\<open>\s*\<close> before an element that starts with no white space takes all the white space
  there is; \<^verbatim>\<open>\s+\<close> needs one character of it.
\<close>

definition ws0 :: "string \<Rightarrow> string option" where
  "ws0 s = Some (dropWhile isSpace s)"

definition ws1 :: "string \<Rightarrow> string option" where
  "ws1 s = (case s of [] \<Rightarrow> None | c # cs \<Rightarrow> if isSpace c then Some (dropWhile isSpace cs) else None)"

text \<open>One character of a class.\<close>

definition oneOf :: "(char \<Rightarrow> bool) \<Rightarrow> string \<Rightarrow> string option" where
  "oneOf P s = (case s of [] \<Rightarrow> None | c # cs \<Rightarrow> if P c then Some cs else None)"

text \<open>\<^verbatim>\<open>\b\<close> after a word character: the text ends or goes on with no word character.\<close>

definition wordEnd :: "string \<Rightarrow> string option" where
  "wordEnd s = (case s of [] \<Rightarrow> Some [] | c # cs \<Rightarrow> if isWordChar c then None else Some s)"

text \<open>An expression without \<^verbatim>\<open>^\<close> is tried at every position, from the left.\<close>

definition testAnywhere :: "(string \<Rightarrow> 'a option) \<Rightarrow> string \<Rightarrow> bool" where
  "testAnywhere m s = list_ex (\<lambda>r. m r \<noteq> None) (tails s)"

fun firstMatch :: "(string \<Rightarrow> 'a option) \<Rightarrow> string \<Rightarrow> 'a option" where
  "firstMatch m [] = m []"
| "firstMatch m (c # cs) = (case m (c # cs) of Some v \<Rightarrow> Some v | None \<Rightarrow> firstMatch m cs)"

text \<open>A sequence of elements, and an alternation (the first alternative that matches).\<close>

fun matchSeq :: "(string \<Rightarrow> string option) list \<Rightarrow> string \<Rightarrow> string option" where
  "matchSeq [] s = Some s"
| "matchSeq (m # ms) s = (case m s of None \<Rightarrow> None | Some r \<Rightarrow> matchSeq ms r)"

fun altOf :: "(string \<Rightarrow> string option) list \<Rightarrow> string \<Rightarrow> string option" where
  "altOf [] s = None"
| "altOf (m # ms) s = (case m s of Some r \<Rightarrow> Some r | None \<Rightarrow> altOf ms s)"

text \<open>
  A greedy \<^verbatim>\<open>[class]*\<close> followed by the rest \<open>m\<close> of the expression, where the rest may
  itself start with characters of the class (\<^verbatim>\<open>[a-z]*date\<close>): the star gives characters
  back one at a time, so the rest is tried after the whole run of class characters first,
  then after each shorter part of it.
\<close>

definition starThen :: "(char \<Rightarrow> bool) \<Rightarrow> (string \<Rightarrow> string option) \<Rightarrow> string \<Rightarrow> string option" where
  "starThen P m s =
     (case List.map_filter (\<lambda>k. m (drop k s)) (rev [0 ..< Suc (length (takeWhile P s))]) of
        [] \<Rightarrow> None
      | r # _ \<Rightarrow> Some r)"

text \<open>
  An expression that starts with \<^verbatim>\<open>\b\<close> and then a word character: it can match only at
  the start of the text or after a character that is no word character. The flag says
  whether the position is such a one.
\<close>

fun testWordStart :: "(string \<Rightarrow> string option) \<Rightarrow> bool \<Rightarrow> string \<Rightarrow> bool" where
  "testWordStart m b [] = False"
| "testWordStart m b (c # cs) = ((b \<and> m (c # cs) \<noteq> None) \<or> testWordStart m (\<not> isWordChar c) cs)"

subsection \<open>The regular expressions of the source\<close>

text \<open>\<^verbatim>\<open>/export\s+class\s+(\w+)/\<close>, tried at the start of \<open>r\<close>: the identifier captured.\<close>

definition classMatchAt :: "string \<Rightarrow> string option" where
  "classMatchAt r =
     (case matchSeq [lit ''export'', ws1, lit ''class'', ws1] r of
        None \<Rightarrow> None
      | Some r1 \<Rightarrow> (let w = takeWhile isWordChar r1 in if w = [] then None else Some w))"

definition classMatch :: "string \<Rightarrow> string option" where
  "classMatch source = firstMatch classMatchAt source"

text \<open>
  \<^verbatim>\<open>/^(?:public\s+|private\s+|readonly\s+)?([A-Za-z_][A-Za-z0-9_]*)\??:\s*([^;]+);/\<close>
  on a trimmed line: the whole match, group 1 and group 2.

  Where the modifier group matches, the expression cannot match without it (the identifier
  would be the keyword, followed by white space and not by \<^verbatim>\<open>?\<close> or \<^verbatim>\<open>:\<close>), and the
  identifier is the whole run of identifier characters (a shorter one is followed by an
  identifier character). Group 2 runs to the first \<^verbatim>\<open>;\<close>, which must exist; \<^verbatim>\<open>\s*\<close>
  takes the white space before it, but gives one character back when nothing else is
  left for the group.
\<close>

definition propMatch :: "string \<Rightarrow> (string \<times> string \<times> string) option" where
  "propMatch line =
     (let r0 = (case altOf [matchSeq [lit ''public'', ws1], matchSeq [lit ''private'', ws1],
                            matchSeq [lit ''readonly'', ws1]] line of
                  Some r \<Rightarrow> r
                | None \<Rightarrow> line)
      in case r0 of
           [] \<Rightarrow> None
         | c # cs \<Rightarrow>
             if \<not> isIdentStart c then None
             else
               (let ident = c # takeWhile isWordChar cs;
                    r1 = dropWhile isWordChar cs;
                    r2 = (case lit ''?'' r1 of Some r \<Rightarrow> r | None \<Rightarrow> r1)
                in case lit '':'' r2 of
                     None \<Rightarrow> None
                   | Some r3 \<Rightarrow>
                       (let seg = takeWhile (\<lambda>x. x \<noteq> CHR '';'') r3;
                            rest = drop (Suc (length seg)) r3;
                            body = dropWhile isSpace seg
                        in if seg = [] \<or> length seg = length r3 then None
                           else Some (take (length line - length rest) line, ident,
                                      if body = [] then [last seg] else body))))"

text \<open>\<^verbatim>\<open>/nullable\s*:\s*true/\<close>\<close>

definition reNullable :: "string \<Rightarrow> bool" where
  "reNullable s = testAnywhere (matchSeq [lit ''nullable'', ws0, lit '':'', ws0, lit ''true'']) s"

text \<open>\<^verbatim>\<open>/@(name1|name2|...)\b/\<close> for a list of decorator names.\<close>

definition reDecorator :: "string list \<Rightarrow> string \<Rightarrow> bool" where
  "reDecorator names d =
     testAnywhere (matchSeq [lit ''@'', altOf (map (\<lambda>n. matchSeq [lit n, wordEnd]) names)]) d"

text \<open>\<^verbatim>\<open>/@Column\(/\<close>\<close>

definition reColumnOpen :: "string \<Rightarrow> bool" where
  "reColumnOpen s = testAnywhere (lit ''@Column('') s"

text \<open>\<^verbatim>\<open>/type\s*:\s*['\"]tinyint['\"]/i\<close>\<close>

definition reTinyintType :: "string \<Rightarrow> bool" where
  "reTinyintType s =
     testAnywhere (matchSeq [litI ''type'', ws0, lit '':'', ws0, oneOf isQuote,
                             litI ''tinyint'', oneOf isQuote]) s"

text \<open>\<^verbatim>\<open>/width\s*:\s*1\b/\<close>\<close>

definition reWidthOne :: "string \<Rightarrow> bool" where
  "reWidthOne s = testAnywhere (matchSeq [lit ''width'', ws0, lit '':'', ws0, lit ''1'', wordEnd]) s"

text \<open>\<^verbatim>\<open>/type\s*:\s*['\"][a-z]*date/\<close>\<close>

definition reDateType :: "string \<Rightarrow> bool" where
  "reDateType s =
     testAnywhere (matchSeq [lit ''type'', ws0, lit '':'', ws0, oneOf isQuote,
                             starThen isLower (lit ''date'')]) s"

text \<open>\<^verbatim>\<open>/type\s*:\s*['\"][a-z]*int['\"]/i\<close>\<close>

definition reIntType :: "string \<Rightarrow> bool" where
  "reIntType s =
     testAnywhere (matchSeq [litI ''type'', ws0, lit '':'', ws0, oneOf isQuote,
                             starThen (\<lambda>c. isLower c \<or> isUpper c)
                               (matchSeq [litI ''int'', oneOf isQuote])]) s"

text \<open>\<^verbatim>\<open>/Enum\b/\<close>, and \<^verbatim>\<open>/\bEnum\b/\<close>.\<close>

definition reEnumEnd :: "string \<Rightarrow> bool" where
  "reEnumEnd s = testAnywhere (matchSeq [lit ''Enum'', wordEnd]) s"

definition reEnumWord :: "string \<Rightarrow> bool" where
  "reEnumWord s = testWordStart (matchSeq [lit ''Enum'', wordEnd]) True s"

text \<open>
  \<^verbatim>\<open>/^Array<(.+)>$/\<close>: the text starts with \<^verbatim>\<open>Array<\<close>, its last character is
  \<^verbatim>\<open>>\<close>, and what lies between is not empty and holds no line terminator.
\<close>

definition arrayGenericMatch :: "string \<Rightarrow> string option" where
  "arrayGenericMatch t =
     (case lit ''Array<'' t of
        None \<Rightarrow> None
      | Some r \<Rightarrow>
          if r \<noteq> [] \<and> last r = CHR ''>'' \<and> butlast r \<noteq> [] \<and>
             list_all (\<lambda>c. \<not> isLineTerminator c) (butlast r)
          then Some (butlast r)
          else None)"

subsection \<open>The data model\<close>

record Field =
  name :: string
  tsType :: string
  optional :: bool
  decorators :: "string list"
  rawColumnMeta :: "string option"

record ParsedEntity =
  className :: string
  baseName :: string
  fields_list :: "Field list"

record Opts =
  forceOptional :: bool
  stripAudit :: bool

text \<open>\<^verbatim>\<open>x || ""\<close> for a text that may be undefined.\<close>

definition orEmpty :: "string option \<Rightarrow> string" where
  "orEmpty m = (case m of None \<Rightarrow> [] | Some s \<Rightarrow> s)"

subsection \<open>parseEntity\<close>

text \<open>The variables of the scan: the fields so far and the two buffers.\<close>

record ParseState =
  fieldsAcc :: "Field list"
  decoratorBuf :: "string list"
  pendingColumnMeta :: "string option"

text \<open>
  The inner loop, over the lines from index \<open>j\<close> on (the first argument is what is left of
  \<open>lines\<close> there): the text gathered, and the index of the line at which the depth came
  back to zero or below, if there is one.
\<close>

fun metaLoop :: "string list \<Rightarrow> nat \<Rightarrow> string \<Rightarrow> int \<Rightarrow> string \<times> nat option" where
  "metaLoop [] j meta depth = (meta, None)"
| "metaLoop (l # ls) j meta depth =
     (let meta' = meta @ (if meta \<noteq> [] then nl else []) @ l;
          depth' = depth + int (count_list l (CHR ''('')) - int (count_list l (CHR '')''))
      in if depth' \<le> 0 then (meta', Some j) else metaLoop ls (Suc j) meta' depth')"

text \<open>
  The body of the outer loop at index \<open>i\<close>: the value of \<open>i\<close> at the end of the body (the
  loop then adds one) and the state.
\<close>

definition parseStep :: "string list \<Rightarrow> nat \<Rightarrow> ParseState \<Rightarrow> nat \<times> ParseState" where
  "parseStep lines i st =
     (let line = trim (lines ! i) in
      if startsWith line ''@'' then
        (let st1 = st\<lparr>decoratorBuf := decoratorBuf st @ [line]\<rparr> in
         if startsWith line ''@Column('' then
           if includes_str line ''{'' then
             (case metaLoop (drop i lines) i [] 0 of
                (meta, Some j) \<Rightarrow> (j, st1\<lparr>pendingColumnMeta := Some meta\<rparr>)
              | (meta, None) \<Rightarrow> (i, st1\<lparr>pendingColumnMeta := Some meta\<rparr>))
           else (i, st1)
         else (i, st1))
      else
        (case propMatch line of
           Some (whole, ident, ty) \<Rightarrow>
             (i, \<lparr>fieldsAcc = fieldsAcc st @
                    [\<lparr>name = ident, tsType = trim ty,
                      optional = (endsWith whole ''?'' \<or>
                        reNullable (orEmpty (pendingColumnMeta st) @ nl @
                                    joinWith nl (decoratorBuf st))),
                      decorators = decoratorBuf st,
                      rawColumnMeta = pendingColumnMeta st\<rparr>],
                  decoratorBuf = [], pendingColumnMeta = None\<rparr>)
         | None \<Rightarrow> (i, st)))"

lemma metaLoop_index: "metaLoop ls j meta depth = (m, Some k) \<Longrightarrow> j \<le> k"
proof (induction ls arbitrary: j meta depth)
  case Nil
  then show ?case by simp
next
  case (Cons l ls)
  then show ?case
    by (fastforce simp: Let_def split: if_splits dest: Suc_leD)
qed

lemma parseStep_index: "i \<le> fst (parseStep lines i st)"
  by (auto simp: parseStep_def Let_def split: option.splits prod.splits dest: metaLoop_index)

text \<open>The outer loop, from index \<open>i\<close> on.\<close>

function parseLoop :: "string list \<Rightarrow> nat \<Rightarrow> ParseState \<Rightarrow> ParseState" where
  "parseLoop lines i st =
     (if i < length lines
      then (case parseStep lines i st of (i', st') \<Rightarrow> parseLoop lines (Suc i') st')
      else st)"
  by pat_completeness auto
termination
proof (relation "measure (\<lambda>(lines, i, st). length lines - i)")
  show "wf (measure (\<lambda>(lines, i, st). length lines - i))"
    by simp
next
  fix lines :: "string list" and i i' :: nat and st st' :: ParseState
  assume less: "i < length lines" and step: "(i', st') = parseStep lines i st"
  from step have "fst (parseStep lines i st) = i'"
    by (metis fst_conv)
  then have "i \<le> i'"
    using parseStep_index [of i lines st] by simp
  with less
  show "((lines, Suc i', st'), (lines, i, st)) \<in> measure (\<lambda>(lines, i, st). length lines - i)"
    by simp
qed

declare parseLoop.simps [simp del]

definition initState :: ParseState where
  "initState = \<lparr>fieldsAcc = [], decoratorBuf = [], pendingColumnMeta = None\<rparr>"

definition parseFields :: "string \<Rightarrow> Field list" where
  "parseFields source = fieldsAcc (parseLoop (splitLines source) 0 initState)"

text \<open>
  \<^verbatim>\<open>parseEntity\<close>: \<open>None\<close> is the source's \<^verbatim>\<open>null\<close>. The test \<^verbatim>\<open>!className\<close> also
  refuses an empty capture.
\<close>

definition parseEntity :: "string \<Rightarrow> ParsedEntity option" where
  "parseEntity source =
     (case classMatch source of
        None \<Rightarrow> None
      | Some cn \<Rightarrow>
          if cn = [] then None
          else Some \<lparr>className = cn, baseName = replaceSuffix ''Entity'' [] cn,
                     fields_list = parseFields source\<rparr>)"

subsection \<open>The lines the scan visits\<close>

text \<open>
  The two kinds of line the loop acts on: a decorator line (trimmed, it starts with
  \<^verbatim>\<open>@\<close>) and a property line (no decorator line, and the declaration pattern matches);
  and the name and type the loop takes from a property line.
\<close>

definition isDecoratorLine :: "string \<Rightarrow> bool" where
  "isDecoratorLine l = startsWith (trim l) ''@''"

definition isPropertyLine :: "string \<Rightarrow> bool" where
  "isPropertyLine l = (\<not> startsWith (trim l) ''@'' \<and> propMatch (trim l) \<noteq> None)"

definition propertyOf :: "string \<Rightarrow> string \<times> string" where
  "propertyOf l = (case propMatch (trim l) of Some (whole, ident, ty) \<Rightarrow> (ident, trim ty) | None \<Rightarrow> ([], []))"

text \<open>
  The index at the end of the loop body at index \<open>i\<close>: the last line of the metadata
  capture if the line starts one and the capture closes, else \<open>i\<close> itself. It does not
  depend on the state.
\<close>

definition lineEnd :: "string list \<Rightarrow> nat \<Rightarrow> nat" where
  "lineEnd lines i =
     (let line = trim (lines ! i) in
      if startsWith line ''@'' \<and> startsWith line ''@Column('' \<and> includes_str line ''{''
      then (case snd (metaLoop (drop i lines) i [] 0) of Some j \<Rightarrow> j | None \<Rightarrow> i)
      else i)"

lemma fst_parseStep: "fst (parseStep lines i st) = lineEnd lines i"
  by (simp add: parseStep_def lineEnd_def Let_def split: option.splits prod.splits)

lemma lineEnd_ge: "i \<le> lineEnd lines i"
  using parseStep_index [of i lines initState] by (simp add: fst_parseStep)

text \<open>The indices the loop is at, from \<open>i\<close> on: the lines it visits.\<close>

function visited :: "string list \<Rightarrow> nat \<Rightarrow> nat list" where
  "visited lines i = (if i < length lines then i # visited lines (Suc (lineEnd lines i)) else [])"
  by pat_completeness auto
termination
proof (relation "measure (\<lambda>(lines, i). length lines - i)")
  show "wf (measure (\<lambda>(lines, i). length lines - i))"
    by simp
next
  fix lines :: "string list" and i :: nat
  assume "i < length lines"
  then show "((lines, Suc (lineEnd lines i)), (lines, i)) \<in> measure (\<lambda>(lines, i). length lines - i)"
    using lineEnd_ge [of i lines] by simp
qed

declare visited.simps [simp del]

text \<open>What the body of the loop does to the state at a line.\<close>

definition stepState :: "string list \<Rightarrow> ParseState \<Rightarrow> nat \<Rightarrow> ParseState" where
  "stepState lines st k = snd (parseStep lines k st)"

subsection \<open>The field classifiers\<close>

definition isRelation :: "Field \<Rightarrow> bool" where
  "isRelation field =
     list_ex (reDecorator [''OneToOne'', ''OneToMany'', ''ManyToOne'', ''ManyToMany'',
                           ''JoinColumn'', ''JoinTable'']) (decorators field)"

definition isGeneratedPrimary :: "Field \<Rightarrow> bool" where
  "isGeneratedPrimary field = list_ex (reDecorator [''PrimaryGeneratedColumn'']) (decorators field)"

definition isAudit :: "Field \<Rightarrow> bool" where
  "isAudit field =
     list_ex (reDecorator [''CreateDateColumn'', ''UpdateDateColumn'', ''DeleteDateColumn''])
       (decorators field)"

definition isTinyIntBoolean :: "Field \<Rightarrow> bool" where
  "isTinyIntBoolean field =
     (let meta = orEmpty (rawColumnMeta field)
      in reColumnOpen meta \<and> reTinyintType meta \<and> reWidthOne meta)"

definition mapTsType :: "Field \<Rightarrow> string" where
  "mapTsType field = trim (tsType field)"

subsection \<open>The validators of a request field\<close>

definition getValidatorDecorators :: "Field \<Rightarrow> bool \<Rightarrow> string list" where
  "getValidatorDecorators field required =
     (let t = filter (\<lambda>c. \<not> isSpace c) (tsType field);
          columnMeta = orEmpty (rawColumnMeta field);
          decos1 =
            (if reEnumEnd t then [''@IsEnum('' @ trim (tsType field) @ '')'']
             else if t = ''string'' then [''@IsString()'']
             else if t = ''Date'' then [''@IsDate()'']
             else if t = ''number'' then
               (if reIntType columnMeta then [''@IsInt()''] else [''@IsInt()''])
             else []);
          decos2 = (if \<not> required then decos1 @ [''@IsOptional()''] else decos1)
      in if required \<and> t = ''string'' then decos2 @ [''@IsNotEmpty()''] else decos2)"

subsection \<open>The import lines carried over\<close>

text \<open>\<^verbatim>\<open>Array.from(new Set(xs))\<close>: the first occurrence of each element, in order.\<close>

definition uniq :: "'a list \<Rightarrow> 'a list" where
  "uniq xs = rev (remdups (rev xs))"

definition extractEnumImports :: "string \<Rightarrow> Field list \<Rightarrow> string list" where
  "extractEnumImports source fs =
     (let enumTypeNames =
            uniq (filter (\<lambda>t. reEnumWord t \<or> endsWith t ''Enum'') (map (\<lambda>f. trim (tsType f)) fs));
          importLines = filter (\<lambda>l. startsWith (trim l) ''import'') (splitLines source);
          selected = filter (\<lambda>line. list_ex (\<lambda>n. includes_str line n) enumTypeNames) importLines
      in uniq selected)"

subsection \<open>genDocDto: the request DTO\<close>

text \<open>The flag \<^verbatim>\<open>isRequired\<close> of the loop over the retained fields.\<close>

definition isRequired :: "Opts \<Rightarrow> Field \<Rightarrow> bool" where
  "isRequired opts f = (\<not> forceOptional opts \<and> \<not> optional f \<and> \<not> isGeneratedPrimary f)"

text \<open>The fields the loop runs over.\<close>

definition requestFields :: "ParsedEntity \<Rightarrow> Field list" where
  "requestFields parsed = filter (\<lambda>f. \<not> isRelation f \<and> \<not> isAudit f) (fields_list parsed)"

text \<open>The lines one pass of the loop pushes.\<close>

definition docFieldLines :: "Opts \<Rightarrow> Field \<Rightarrow> string list" where
  "docFieldLines opts f =
     (let isReq = isRequired opts f;
          t = mapTsType f;
          isTiny = isTinyIntBoolean f;
          isDateType = (t = ''Date'' \<or> reDateType (orEmpty (rawColumnMeta f)))
      in (if isTiny then [''  @Transform(({ value }) => boolTransformer.to(value))''] else []) @
         (if isDateType then [''  @Transform(({ value }) => dateTransformer.to(value))''] else []) @
         map (\<lambda>d. ''  '' @ d) (getValidatorDecorators f (\<not> isReq)) @
         [''  '' @ name f @ '': '' @ (if isTiny then ''number'' else t) @ '';'', []])"

text \<open>What the loop pushes in all: the body of the class.\<close>

definition docClassBody :: "ParsedEntity \<Rightarrow> Opts \<Rightarrow> string list" where
  "docClassBody parsed opts = concat (map (docFieldLines opts) (requestFields parsed))"

definition genDocDtoLines :: "string \<Rightarrow> ParsedEntity \<Rightarrow> Opts \<Rightarrow> string list" where
  "genDocDtoLines source parsed opts =
     (let cls = baseName parsed @ ''Dto'' in
      [''import { IsString, IsOptional, IsInt, IsNotEmpty, IsDate, IsEnum } from 'class-validator';'',
       ''import { Transform } from 'class-transformer';'',
       ''import { PartialType } from '@nestjs/mapped-types';'',
       ''import { CommonDto } from 'src/common/dto/common.dto';'',
       ''import { boolTransformer, dateTransformer } from 'src/common/util/transformer';''] @
      extractEnumImports source (fields_list parsed) @
      [[], ''export class '' @ cls @ '' extends CommonDto {''] @
      docClassBody parsed opts @
      [''}''] @
      [[], ''export class '' @ baseName parsed @ ''ReqDto extends PartialType('' @ cls @ '') {}''])"

definition genDocDto :: "string \<Rightarrow> ParsedEntity \<Rightarrow> Opts \<Rightarrow> string" where
  "genDocDto source parsed opts = joinWith nl (genDocDtoLines source parsed opts)"

subsection \<open>toRelationResDtoType and genResponseDto: the response DTO\<close>

lemma length_trim: "length (trim s) \<le> length s"
proof -
  have "length (dropWhile isSpace (rev (dropWhile isSpace s))) \<le> length (rev (dropWhile isSpace s))"
    by (rule length_dropWhile_le)
  also have "\<dots> \<le> length s"
    by (simp add: length_dropWhile_le)
  finally show ?thesis by (simp add: trim_def)
qed

lemma arrayGenericMatch_shorter: "arrayGenericMatch t = Some inner \<Longrightarrow> length inner < length t"
  by (auto simp: arrayGenericMatch_def lit_def split: option.splits if_splits)

function toRelationResDtoType :: "string \<Rightarrow> string" where
  "toRelationResDtoType ty =
     (let t = trim ty in
      case arrayGenericMatch t of
        Some inner \<Rightarrow> toRelationResDtoType inner @ ''[]''
      | None \<Rightarrow>
          if endsWith t ''[]'' then toRelationResDtoType (trim (take (length t - 2) t)) @ ''[]''
          else replaceSuffix ''Entity'' ''ResDto'' t)"
  by pat_completeness auto
termination
proof (relation "measure length")
  show "wf (measure length)" by simp
next
  fix ty t inner :: string
  assume "t = trim ty" and "arrayGenericMatch t = Some inner"
  then have "length inner < length (trim ty)"
    by (simp add: arrayGenericMatch_shorter)
  then show "(inner, ty) \<in> measure length"
    using length_trim [of ty] by simp
next
  fix ty t :: string
  assume t: "t = trim ty" and "arrayGenericMatch t = None" and e: "endsWith t ''[]''"
  from e have "2 \<le> length t" by (simp add: endsWith_def)
  then have "length (trim (take (length t - 2) t)) < length t"
    using length_trim [of "take (length t - 2) t"] by simp
  then show "(trim (take (length t - 2) t), ty) \<in> measure length"
    using length_trim [of ty] t by simp
qed

declare toRelationResDtoType.simps [simp del]

text \<open>The type the loop of \<^verbatim>\<open>genResponseDto\<close> writes for a field, and the lines it pushes.\<close>

definition isDateColumn :: "Field \<Rightarrow> bool" where
  "isDateColumn f = (trim (tsType f) = ''Date'' \<or> reDateType (orEmpty (rawColumnMeta f)))"

definition resTypeStr :: "Field \<Rightarrow> string" where
  "resTypeStr f =
     (if isRelation f then toRelationResDtoType (trim (tsType f))
      else if isTinyIntBoolean f then ''boolean''
      else if isAudit f \<and> isDateColumn f then ''Date''
      else if isDateColumn f then ''string''
      else trim (tsType f))"

definition resFieldLines :: "Field \<Rightarrow> string list" where
  "resFieldLines f =
     (if \<not> isRelation f then
        (if isTinyIntBoolean f then [''  @Transform(({ value }) => boolTransformer.from(value))'']
         else []) @
        (if \<not> isAudit f \<and> isDateColumn f
         then [''  @Transform(({ value }) => dateTransformer.from(value))'']
         else [])
      else []) @
     [''  @Expose()''] @
     [''  '' @ name f @ '': '' @ resTypeStr f @ '';'', []]"

definition resClassBody :: "ParsedEntity \<Rightarrow> string list" where
  "resClassBody parsed = concat (map resFieldLines (fields_list parsed))"

definition genResponseDtoLines :: "string \<Rightarrow> ParsedEntity \<Rightarrow> string list" where
  "genResponseDtoLines source parsed =
     [''import { Expose, Transform } from 'class-transformer';'',
      ''import { boolTransformer, dateTransformer } from 'src/common/util/transformer';''] @
     extractEnumImports source (fields_list parsed) @
     [[], ''export class '' @ baseName parsed @ ''ResDto {''] @
     resClassBody parsed @
     [''}'']"

definition genResponseDto :: "string \<Rightarrow> ParsedEntity \<Rightarrow> string" where
  "genResponseDto source parsed = joinWith nl (genResponseDtoLines source parsed)"

subsection \<open>What the specification calls an exported class declaration\<close>

text \<open>
  The words of the specification, to compare \<^verbatim>\<open>parseEntity\<close> with: an exported class
  declaration with a capturable identifier is the word \<^verbatim>\<open>export\<close>, white space, the word
  \<^verbatim>\<open>class\<close>, white space, and an identifier of word characters. At a given place the
  identifier captured is the whole run of word characters there.
\<close>

definition spec_exportedClassAt :: "string \<Rightarrow> string \<Rightarrow> bool" where
  "spec_exportedClassAt r ident =
     (\<exists>ws1 ws2 post. r = ''export'' @ ws1 @ ''class'' @ ws2 @ ident @ post \<and>
        ws1 \<noteq> [] \<and> list_all isSpace ws1 \<and> ws2 \<noteq> [] \<and> list_all isSpace ws2 \<and>
        ident \<noteq> [] \<and> list_all isWordChar ident \<and> (post = [] \<or> \<not> isWordChar (hd post)))"

definition spec_hasExportedClass :: "string \<Rightarrow> bool" where
  "spec_hasExportedClass s =
     (\<exists>pre ws1 ws2 ident post. s = pre @ ''export'' @ ws1 @ ''class'' @ ws2 @ ident @ post \<and>
        ws1 \<noteq> [] \<and> list_all isSpace ws1 \<and> ws2 \<noteq> [] \<and> list_all isSpace ws2 \<and>
        ident \<noteq> [] \<and> list_all isWordChar ident)"

subsection \<open>The tinyint type and the width of one\<close>

text \<open>
  The words of the specification for \<^verbatim>\<open>isTinyIntBoolean\<close>, to compare the code with: the
  metadata text has an attribute named \<^verbatim>\<open>type\<close> whose quoted value is \<^verbatim>\<open>tinyint\<close> in
  any case of letters, and an attribute named \<^verbatim>\<open>width\<close> whose value is exactly
  \<^verbatim>\<open>1\<close>. An attribute name starts where no word character stands before it, and the
  value \<^verbatim>\<open>1\<close> ends where neither a word character nor a decimal point follows.
\<close>

definition numberEnd :: "string \<Rightarrow> string option" where
  "numberEnd s =
     (case s of [] \<Rightarrow> Some [] | c # cs \<Rightarrow> if isWordChar c \<or> c = CHR ''.'' then None else Some s)"

definition spec_typeAttrTinyint :: "string \<Rightarrow> bool" where
  "spec_typeAttrTinyint meta =
     testWordStart (matchSeq [lit ''type'', ws0, lit '':'', ws0, oneOf isQuote,
                              litI ''tinyint'', oneOf isQuote]) True meta"

definition spec_widthAttrExactlyOne :: "string \<Rightarrow> bool" where
  "spec_widthAttrExactlyOne meta =
     testWordStart (matchSeq [lit ''width'', ws0, lit '':'', ws0, lit ''1'', numberEnd]) True meta"

text \<open>
  What the two tests of \<^verbatim>\<open>isTinyIntBoolean\<close> find, said without the matcher. Somewhere in
  the text stand the letters \<^verbatim>\<open>type\<close> (in any case, and also as the end of a longer
  name), white space or none, a colon, white space or none, a quote, the letters
  \<^verbatim>\<open>tinyint\<close> in any case, a quote. And somewhere stand the letters \<^verbatim>\<open>width\<close> (also
  as the end of a longer name), white space or none, a colon, white space or none, the
  digit \<^verbatim>\<open>1\<close>, and then no word character (a decimal point may follow).
\<close>

definition tinyintTypeText :: "string \<Rightarrow> bool" where
  "tinyintTypeText meta =
     (\<exists>pre k w1 w2 q1 v q2 post. meta = pre @ k @ w1 @ '':'' @ w2 @ [q1] @ v @ [q2] @ post \<and>
        map lowerAscii k = ''type'' \<and> list_all isSpace w1 \<and> list_all isSpace w2 \<and>
        isQuote q1 \<and> map lowerAscii v = ''tinyint'' \<and> isQuote q2)"

definition widthOneText :: "string \<Rightarrow> bool" where
  "widthOneText meta =
     (\<exists>pre w1 w2 post. meta = pre @ ''width'' @ w1 @ '':'' @ w2 @ ''1'' @ post \<and>
        list_all isSpace w1 \<and> list_all isSpace w2 \<and> (post = [] \<or> \<not> isWordChar (hd post)))"

subsection \<open>Wrapped type names\<close>

text \<open>
  The two array forms a relation type is written in, \<^verbatim>\<open>Array<T>\<close> and \<^verbatim>\<open>T[]\<close>, to
  state what \<^verbatim>\<open>toRelationResDtoType\<close> does with a wrapped name.
\<close>

datatype wrapper = GenericArray | PlainArray

fun wrapType :: "wrapper \<Rightarrow> string \<Rightarrow> string" where
  "wrapType GenericArray s = ''Array<'' @ s @ ''>''"
| "wrapType PlainArray s = s @ ''[]''"

subsection \<open>Example inputs\<close>

text \<open>
  An entity with a generated primary key, a plain text column, a relation and an audit
  column, and what \<^verbatim>\<open>parseEntity\<close> makes of it. The class decorator above the header
  ends up among the decorators of the first field.
\<close>

definition exampleSource :: string where
  "exampleSource = joinWith nl
     [''@Entity()'',
      ''export class DocEntity {'',
      ''  @PrimaryGeneratedColumn()'',
      ''  id: number;'',
      ''  @Column()'',
      ''  title: string;'',
      ''  @OneToMany(() => CommentEntity, (c) => c.doc)'',
      ''  comments: CommentEntity[];'',
      ''  @CreateDateColumn()'',
      ''  createdAt: Date;'',
      ''}'']"

definition idField :: Field where
  "idField = \<lparr>name = ''id'', tsType = ''number'', optional = False,
      decorators = [''@Entity()'', ''@PrimaryGeneratedColumn()''], rawColumnMeta = None\<rparr>"

definition titleField :: Field where
  "titleField = \<lparr>name = ''title'', tsType = ''string'', optional = False,
      decorators = [''@Column()''], rawColumnMeta = None\<rparr>"

definition commentsField :: Field where
  "commentsField = \<lparr>name = ''comments'', tsType = ''CommentEntity[]'', optional = False,
      decorators = [''@OneToMany(() => CommentEntity, (c) => c.doc)''], rawColumnMeta = None\<rparr>"

definition createdAtField :: Field where
  "createdAtField = \<lparr>name = ''createdAt'', tsType = ''Date'', optional = False,
      decorators = [''@CreateDateColumn()''], rawColumnMeta = None\<rparr>"

definition exampleEntity :: ParsedEntity where
  "exampleEntity = \<lparr>className = ''DocEntity'', baseName = ''Doc'',
      fields_list = [idField, titleField, commentsField, createdAtField]\<rparr>"

definition strictOpts :: Opts where
  "strictOpts = \<lparr>forceOptional = False, stripAudit = True\<rparr>"

definition laxOpts :: Opts where
  "laxOpts = \<lparr>forceOptional = True, stripAudit = True\<rparr>"

text \<open>A declaration with the optional marker and no nullable column.\<close>

definition optionalMarkerSource :: string where
  "optionalMarkerSource = joinWith nl
     [''export class NoteEntity {'',
      ''  @Column()'',
      ''  subtitle?: string;'',
      ''}'']"

text \<open>A text with a class that is not exported.\<close>

definition noClassSource :: string where
  "noClassSource = ''class DocEntity { id: number; }''"

text \<open>
  A tinyint column of width one, alone; and an entity with such a column together with a
  relation decorator on the same property, such a column together with an audit
  decorator, a column of width 1.5, and a column whose attributes are named
  \<^verbatim>\<open>subType\<close> and \<^verbatim>\<open>maxwidth\<close>.
\<close>

definition activeField :: Field where
  "activeField = \<lparr>name = ''active'', tsType = ''boolean'', optional = False,
      decorators = [''@Column({ type: 'tinyint', width: 1 })''],
      rawColumnMeta = Some ''  @Column({ type: 'tinyint', width: 1 })''\<rparr>"

definition tinyEntity :: ParsedEntity where
  "tinyEntity = \<lparr>className = ''FlagEntity'', baseName = ''Flag'', fields_list = [activeField]\<rparr>"

definition tinySource :: string where
  "tinySource = joinWith nl
     [''export class FlagEntity {'',
      ''  @Column({ type: 'tinyint', width: 1 })'',
      ''  active: boolean;'',
      ''}'']"

definition tinyOddSource :: string where
  "tinyOddSource = joinWith nl
     [''export class FlagEntity {'',
      ''  @Column({ type: 'tinyint', width: 1 })'',
      ''  @ManyToOne(() => OwnerEntity)'',
      ''  owner: OwnerEntity;'',
      ''  @Column({ type: 'tinyint', width: 1 })'',
      ''  @DeleteDateColumn()'',
      ''  deleted: boolean;'',
      ''  @Column({ type: 'tinyint', width: 1.5 })'',
      ''  ratio: number;'',
      ''  @Column({ subType: 'TINYINT', maxwidth: 1 })'',
      ''  kind: number;'',
      ''}'']"

definition ownerField :: Field where
  "ownerField = \<lparr>name = ''owner'', tsType = ''OwnerEntity'', optional = False,
      decorators = [''@Column({ type: 'tinyint', width: 1 })'', ''@ManyToOne(() => OwnerEntity)''],
      rawColumnMeta = Some ''  @Column({ type: 'tinyint', width: 1 })''\<rparr>"

definition deletedField :: Field where
  "deletedField = \<lparr>name = ''deleted'', tsType = ''boolean'', optional = False,
      decorators = [''@Column({ type: 'tinyint', width: 1 })'', ''@DeleteDateColumn()''],
      rawColumnMeta = Some ''  @Column({ type: 'tinyint', width: 1 })''\<rparr>"

definition ratioField :: Field where
  "ratioField = \<lparr>name = ''ratio'', tsType = ''number'', optional = False,
      decorators = [''@Column({ type: 'tinyint', width: 1.5 })''],
      rawColumnMeta = Some ''  @Column({ type: 'tinyint', width: 1.5 })''\<rparr>"

definition kindField :: Field where
  "kindField = \<lparr>name = ''kind'', tsType = ''number'', optional = False,
      decorators = [''@Column({ subType: 'TINYINT', maxwidth: 1 })''],
      rawColumnMeta = Some ''  @Column({ subType: 'TINYINT', maxwidth: 1 })''\<rparr>"

definition tinyOddEntity :: ParsedEntity where
  "tinyOddEntity = \<lparr>className = ''FlagEntity'', baseName = ''Flag'',
      fields_list = [ownerField, deletedField, ratioField, kindField]\<rparr>"

text \<open>
  A class decorator, a decorator and a column whose metadata spans three lines; a
  decorator line inside a metadata capture; and a text with two exported classes.
\<close>

definition multiLineSource :: string where
  "multiLineSource = joinWith nl
     [''@Entity('docs')'',
      ''export class DocEntity {'',
      ''  @Index()'',
      ''  @Column({'',
      ''    type: 'varchar','',
      ''  })'',
      ''  title: string;'',
      ''}'']"

definition swallowedSource :: string where
  "swallowedSource = joinWith nl
     [''export class DocEntity {'',
      ''  @Column({ default: ('',
      ''  @Index()'',
      ''  ) })'',
      ''  title: string;'',
      ''}'']"

definition twoClassSource :: string where
  "twoClassSource = joinWith nl
     [''export class AEntity {'',
      ''  id: number;'',
      ''}'',
      ''export class BEntity {'',
      ''  label: string;'',
      ''}'']"

definition twoClassEntity :: ParsedEntity where
  "twoClassEntity = \<lparr>className = ''AEntity'', baseName = ''A'',
      fields_list =
        [\<lparr>name = ''id'', tsType = ''number'', optional = False, decorators = [],
           rawColumnMeta = None\<rparr>,
         \<lparr>name = ''label'', tsType = ''string'', optional = False, decorators = [],
           rawColumnMeta = None\<rparr>]\<rparr>"

text \<open>
  A generated primary key of type string; and two exported classes where a parenthesis
  in a comment text keeps the metadata capture of the first class open until the second.
\<close>

definition uuidSource :: string where
  "uuidSource = joinWith nl
     [''export class UserEntity {'',
      ''  @PrimaryGeneratedColumn('uuid')'',
      ''  id: string;'',
      ''}'']"

definition capturedPropertySource :: string where
  "capturedPropertySource = joinWith nl
     [''export class AEntity {'',
      ''  @Column({ comment: 'open (' })'',
      ''  a: string;'',
      ''}'',
      ''export class BEntity {'',
      ''  @Column({ comment: 'close )' })'',
      ''  b: string;'',
      ''}'']"

section \<open>Auxiliary facts\<close>

subsection \<open>trim and toRelationResDtoType\<close>

lemma trim_tight:
  assumes "s \<noteq> []" "\<not> isSpace (hd s)" "\<not> isSpace (last s)"
  shows "trim s = s"
proof -
  from assms have 1: "dropWhile isSpace s = s" by (cases s) auto
  from assms have "rev s \<noteq> []" "\<not> isSpace (hd (rev s))" by (simp_all add: hd_rev)
  then have 2: "dropWhile isSpace (rev s) = rev s" by (cases "rev s") auto
  show ?thesis by (simp add: trim_def 1 2)
qed

lemma trim_Nil [simp]: "trim [] = []" by (simp add: trim_def)

lemma rev_dropWhile_rev_take: "rev (dropWhile P (rev xs)) = take (length xs - length (takeWhile P (rev xs))) xs"
  by (simp add: dropWhile_eq_drop drop_rev)

lemma trim_trim: "trim (trim s) = trim s"
proof (cases "trim s = []")
  case True then show ?thesis by simp
next
  case False
  have a: "\<not> isSpace (last (trim s))"
  proof -
    have "rev (trim s) = dropWhile isSpace (rev (dropWhile isSpace s))" by (simp add: trim_def)
    with False have "\<not> isSpace (hd (rev (trim s)))" by (metis hd_dropWhile rev_is_Nil_conv)
    with False show ?thesis by (simp add: hd_rev)
  qed
  have b: "\<not> isSpace (hd (trim s))"
  proof -
    obtain k where k: "trim s = take k (dropWhile isSpace s)"
      unfolding trim_def rev_dropWhile_rev_take by blast
    with False have "0 < k" "dropWhile isSpace s \<noteq> []" by auto
    then have "hd (trim s) = hd (dropWhile isSpace s)" using k by simp
    then show ?thesis using \<open>dropWhile isSpace s \<noteq> []\<close> by (simp add: hd_dropWhile)
  qed
  show ?thesis using False b a by (rule trim_tight)
qed

lemma trim_dropWhile: "trim (dropWhile isSpace s) = trim s"
  by (simp add: trim_def)

lemma toRel_trim: "toRelationResDtoType (trim s) = toRelationResDtoType s"
  by (subst (1 2) toRelationResDtoType.simps) (simp add: trim_trim)

lemma arrayGenericMatch_bracket: "arrayGenericMatch (s @ ''[]'') = None"
  by (auto simp: arrayGenericMatch_def lit_def split: option.splits if_splits)

lemma toRel_suffix_step: "toRelationResDtoType (s @ ''[]'') = toRelationResDtoType s @ ''[]''"
proof -
  let ?s' = "dropWhile isSpace s"
  define w where "w = s @ ''[]''"
  have d: "dropWhile isSpace w = ?s' @ ''[]''"
    unfolding w_def by (induction s) (simp_all add: isSpace_def)
  have t: "trim w = ?s' @ ''[]''"
    by (simp add: d isSpace_def trim_def)
  have e: "endsWith (?s' @ ''[]'') ''[]''" by (simp add: endsWith_def)
  have "toRelationResDtoType w = toRelationResDtoType (trim ?s') @ ''[]''"
    by (subst toRelationResDtoType.simps) (simp add: t arrayGenericMatch_bracket e)
  then show ?thesis by (simp add: trim_dropWhile toRel_trim w_def)
qed

lemma toRel_generic_step:
  assumes "s \<noteq> []" "list_all (\<lambda>c. \<not> isLineTerminator c) s"
  shows "toRelationResDtoType (''Array<'' @ s @ ''>'') = toRelationResDtoType s @ ''[]''"
proof -
  define w where "w = ''Array<'' @ s @ ''>''"
  have t: "trim w = w"
    unfolding w_def by (rule trim_tight) (simp_all add: isSpace_def)
  have m: "arrayGenericMatch w = Some s"
    unfolding w_def using assms by (simp add: arrayGenericMatch_def lit_def startsWith_def)
  have "toRelationResDtoType w = toRelationResDtoType s @ ''[]''"
    by (subst toRelationResDtoType.simps) (simp add: t m)
  then show ?thesis
    by (simp add: w_def)
qed


lemma word_not_space: "isWordChar c \<Longrightarrow> \<not> isSpace c"
  by (auto simp: isWordChar_def isLower_def isUpper_def isDigit_def isSpace_def)

lemma toRel_identifier:
  assumes "list_all isWordChar x"
  shows "toRelationResDtoType x = replaceSuffix ''Entity'' ''ResDto'' x"
proof (cases "x = []")
  case True
  then show ?thesis
    by (subst toRelationResDtoType.simps)
       (simp add: arrayGenericMatch_def lit_def startsWith_def endsWith_def replaceSuffix_def)
next
  case False
  from assms False have "isWordChar (hd x)" "isWordChar (last x)"
    by (simp_all add: list_all_iff)
  with False have t: "trim x = x"
    by (intro trim_tight word_not_space)
  have "\<not> startsWith x ''Array<''"
  proof
    assume "startsWith x ''Array<''"
    then obtain n where "take n x = ''Array<''"
      unfolding startsWith_def by blast
    then have "CHR ''<'' \<in> set (take n x)"
      by simp
    then have "CHR ''<'' \<in> set x"
      by (rule in_set_takeD)
    with assms have "isWordChar (CHR ''<'')"
      by (simp add: list_all_iff)
    then show False
      by (simp add: isWordChar_def isLower_def isUpper_def isDigit_def)
  qed
  then have m: "arrayGenericMatch x = None"
    by (simp add: arrayGenericMatch_def lit_def)
  have e: "\<not> endsWith x ''[]''"
  proof
    assume "endsWith x ''[]''"
    then obtain n where "drop n x = ''[]''"
      unfolding endsWith_def by blast
    then have "CHR '']'' \<in> set (drop n x)"
      by simp
    then have "CHR '']'' \<in> set x"
      by (rule in_set_dropD)
    with assms have "isWordChar (CHR '']'')"
      by (simp add: list_all_iff)
    then show False
      by (simp add: isWordChar_def isLower_def isUpper_def isDigit_def)
  qed
  show ?thesis
    by (subst toRelationResDtoType.simps) (simp add: t m e)
qed

lemma replaceSuffix_Entity: "replaceSuffix ''Entity'' r (x @ ''Entity'') = x @ r"
  by (simp add: replaceSuffix_def endsWith_def)

lemma wrapped_ok:
  "list_all isWordChar x \<Longrightarrow>
   foldr wrapType ws (x @ ''Entity'') \<noteq> [] \<and>
   list_all (\<lambda>c. \<not> isLineTerminator c) (foldr wrapType ws (x @ ''Entity''))"
proof (induction ws)
  case Nil
  have "isWordChar c \<Longrightarrow> \<not> isLineTerminator c" for c
    by (auto simp: isWordChar_def isLower_def isUpper_def isDigit_def isLineTerminator_def)
  with Nil show ?case
    by (auto simp: list_all_iff isLineTerminator_def)
next
  case (Cons w ws)
  then show ?case
    by (cases w) (simp_all add: isLineTerminator_def)
qed

lemma toRel_wrapped:
  assumes "list_all isWordChar x"
  shows "toRelationResDtoType (foldr wrapType ws (x @ ''Entity'')) =
         x @ ''ResDto'' @ concat (replicate (length ws) ''[]'')"
proof (induction ws)
  case Nil
  have "list_all isWordChar (x @ ''Entity'')"
    using assms by (simp add: isWordChar_def isLower_def isUpper_def)
  then show ?case
    by (simp add: toRel_identifier replaceSuffix_Entity)
next
  case (Cons w ws)
  have c: "concat (replicate (length ws) ''[]'') @ ''[]'' = ''[]'' @ concat (replicate (length ws) ''[]'')"
    by (induction ws) simp_all
  show ?case
  proof (cases w)
    case GenericArray
    then show ?thesis
      using Cons wrapped_ok [OF assms, of ws] toRel_generic_step [of "foldr wrapType ws (x @ ''Entity'')"] c
      by simp
  next
    case PlainArray
    then show ?thesis
      using Cons toRel_suffix_step [of "foldr wrapType ws (x @ ''Entity'')"] c
      by simp
  qed
qed

lemma toRel_other_name:
  assumes "list_all isWordChar y" "\<not> endsWith y ''Entity''"
  shows "toRelationResDtoType y = y"
  using assms by (simp add: toRel_identifier replaceSuffix_def)

subsection \<open>The pieces of the regular expressions\<close>

lemma lit_Some: "lit p s = Some r \<longleftrightarrow> s = p @ r"
  by (auto simp: lit_def startsWith_def) (metis append_take_drop_id)

lemma litI_Some:
  "litI p s = Some r \<Longrightarrow> \<exists>k. s = k @ r \<and> map lowerAscii k = map lowerAscii p"
  by (auto simp: litI_def split: if_splits) (metis append_take_drop_id)

lemma ws0_Some: "ws0 s = Some r \<Longrightarrow> \<exists>w. s = w @ r \<and> list_all isSpace w"
  by (auto simp: ws0_def list_all_iff) (metis set_takeWhileD takeWhile_dropWhile_id)

lemma ws1_Some: "ws1 s = Some r \<Longrightarrow> \<exists>w. s = w @ r \<and> w \<noteq> [] \<and> list_all isSpace w"
proof -
  assume a: "ws1 s = Some r"
  then obtain c cs where s: "s = c # cs" "isSpace c" "r = dropWhile isSpace cs"
    by (auto simp: ws1_def split: list.splits if_splits)
  then have "s = (c # takeWhile isSpace cs) @ r" by simp
  moreover have "list_all isSpace (c # takeWhile isSpace cs)"
    using s by (auto simp: list_all_iff dest: set_takeWhileD)
  ultimately show ?thesis by blast
qed

lemma ws1_append:
  assumes "w \<noteq> []" "list_all isSpace w" "r = [] \<or> \<not> isSpace (hd r)"
  shows "ws1 (w @ r) = Some r"
proof -
  from assms obtain c cs where w: "w = c # cs" "isSpace c" "list_all isSpace cs"
    by (cases w) auto
  have "dropWhile isSpace (cs @ r) = r"
    using w(3) assms(3) by (induction cs) (auto simp: neq_Nil_conv dropWhile_eq_self_iff)
  then show ?thesis using w by (simp add: ws1_def)
qed

lemma oneOf_Some: "oneOf P s = Some r \<longleftrightarrow> (\<exists>c. s = c # r \<and> P c)"
  by (auto simp: oneOf_def split: list.splits)

lemma wordEnd_Some: "wordEnd s = Some r \<longleftrightarrow> r = s \<and> (s = [] \<or> \<not> isWordChar (hd s))"
  by (auto simp: wordEnd_def split: list.splits)

lemma tails_self: "r \<in> set (tails r)"
  by (cases r) simp_all

lemma tails_iff: "r \<in> set (tails s) \<longleftrightarrow> (\<exists>pre. s = pre @ r)"
proof (induction s)
  case Nil
  then show ?case by auto
next
  case (Cons c s)
  show ?case
  proof
    assume "r \<in> set (tails (c # s))"
    then show "\<exists>pre. c # s = pre @ r" using Cons by (auto intro: exI [of _ "c # pre" for pre] exI [of _ "[]"])
  next
    assume "\<exists>pre. c # s = pre @ r"
    then obtain pre where p: "c # s = pre @ r" by blast
    show "r \<in> set (tails (c # s))"
    proof (cases pre)
      case Nil then show ?thesis using p tails_self [of r] by simp
    next
      case (Cons a pre') then show ?thesis using p Cons.IH by auto
    qed
  qed
qed

lemma testAnywhere_iff: "testAnywhere m s \<longleftrightarrow> (\<exists>pre r. s = pre @ r \<and> m r \<noteq> None)"
proof -
  have "testAnywhere m s \<longleftrightarrow> (\<exists>r \<in> set (tails s). m r \<noteq> None)"
    by (simp add: testAnywhere_def list_ex_iff)
  also have "\<dots> \<longleftrightarrow> (\<exists>r. (\<exists>pre. s = pre @ r) \<and> m r \<noteq> None)"
    by (simp add: tails_iff Bex_def)
  also have "\<dots> \<longleftrightarrow> (\<exists>pre r. s = pre @ r \<and> m r \<noteq> None)"
    by (rule iffI; elim exE conjE; intro exI conjI; assumption)
  finally show ?thesis .
qed

lemma firstMatch_None: "firstMatch m s = None \<longleftrightarrow> (\<forall>r \<in> set (tails s). m r = None)"
  by (induction s) (auto split: option.splits)

lemma firstMatch_Some:
  "firstMatch m s = Some v \<longleftrightarrow>
     (\<exists>n\<le>length s. m (drop n s) = Some v \<and> (\<forall>k<n. m (drop k s) = None))"
proof (induction s)
  case Nil
  then show ?case by simp
next
  case (Cons c s)
  show ?case
  proof (cases "m (c # s)")
    case (Some u)
    have "(\<exists>n\<le>length (c # s). m (drop n (c # s)) = Some v \<and> (\<forall>k<n. m (drop k (c # s)) = None))
        \<longleftrightarrow> u = v" (is "?L \<longleftrightarrow> _")
    proof
      assume ?L
      then obtain n where n: "m (drop n (c # s)) = Some v" "\<forall>k<n. m (drop k (c # s)) = None"
        by blast
      have "n = 0"
      proof (rule ccontr)
        assume "n \<noteq> 0"
        then have "m (drop 0 (c # s)) = None" using n(2) by blast
        with Some show False by simp
      qed
      with n(1) Some show "u = v" by simp
    next
      assume "u = v"
      with Some have "0 \<le> length (c # s) \<and> m (drop 0 (c # s)) = Some v \<and> (\<forall>k<0. m (drop k (c # s)) = None)"
        by simp
      then show ?L by blast
    qed
    with Some show ?thesis by simp
  next
    case None
    have "(\<exists>n\<le>length (c # s). m (drop n (c # s)) = Some v \<and> (\<forall>k<n. m (drop k (c # s)) = None))
        \<longleftrightarrow> (\<exists>n\<le>length s. m (drop n s) = Some v \<and> (\<forall>k<n. m (drop k s) = None))"
      (is "?L \<longleftrightarrow> ?R")
    proof
      assume ?L
      then obtain n where n: "n \<le> length (c # s)" "m (drop n (c # s)) = Some v"
        "\<forall>k<n. m (drop k (c # s)) = None"
        by blast
      from n(2) None obtain n' where n': "n = Suc n'"
        by (cases n) auto
      have "\<forall>k<n'. m (drop k s) = None"
      proof (intro allI impI)
        fix k assume "k < n'"
        then have "Suc k < n" using n' by simp
        with n(3) have "m (drop (Suc k) (c # s)) = None" by blast
        then show "m (drop k s) = None" by simp
      qed
      with n n' show ?R by auto
    next
      assume ?R
      then obtain n where n: "n \<le> length s" "m (drop n s) = Some v" "\<forall>k<n. m (drop k s) = None"
        by blast
      have "\<forall>k<Suc n. m (drop k (c # s)) = None"
      proof (intro allI impI)
        fix k assume k: "k < Suc n"
        show "m (drop k (c # s)) = None"
        proof (cases k)
          case 0
          with None show ?thesis by simp
        next
          case (Suc k')
          with k n(3) show ?thesis by simp
        qed
      qed
      moreover have "Suc n \<le> length (c # s)" "m (drop (Suc n) (c # s)) = Some v"
        using n by simp_all
      ultimately show ?L by blast
    qed
    with None Cons show ?thesis by simp
  qed
qed

lemma classMatchAt_sound:
  assumes "classMatchAt r = Some c"
  shows "spec_exportedClassAt r c"
proof -
  from assms obtain r1 where r1: "matchSeq [lit ''export'', ws1, lit ''class'', ws1] r = Some r1"
    and c: "c = takeWhile isWordChar r1" "c \<noteq> []"
    by (auto simp: classMatchAt_def Let_def split: option.splits if_splits)
  from r1 obtain a b d where a: "lit ''export'' r = Some a" and b: "ws1 a = Some b"
    and d: "lit ''class'' b = Some d" and e: "ws1 d = Some r1"
    by (auto split: option.splits)
  from a have 1: "r = ''export'' @ a" by (simp add: lit_Some)
  from b obtain w1 where 2: "a = w1 @ b" "w1 \<noteq> []" "list_all isSpace w1" using ws1_Some by blast
  from d have 3: "b = ''class'' @ d" by (simp add: lit_Some)
  from e obtain w2 where 4: "d = w2 @ r1" "w2 \<noteq> []" "list_all isSpace w2" using ws1_Some by blast
  have 5: "r1 = c @ dropWhile isWordChar r1" by (simp add: c)
  have 6: "list_all isWordChar c" by (auto simp: c list_all_iff dest: set_takeWhileD)
  have 7: "dropWhile isWordChar r1 = [] \<or> \<not> isWordChar (hd (dropWhile isWordChar r1))"
    using hd_dropWhile [of isWordChar r1] by blast
  have "r = ''export'' @ w1 @ ''class'' @ w2 @ c @ dropWhile isWordChar r1"
    using 1 2 3 4 5 by simp
  with 2 4 6 7 c(2) show ?thesis
    unfolding spec_exportedClassAt_def by blast
qed

lemma classMatchAt_complete:
  assumes "r = ''export'' @ w1 @ ''class'' @ w2 @ ident @ post"
    and "w1 \<noteq> []" "list_all isSpace w1" "w2 \<noteq> []" "list_all isSpace w2"
    and "ident \<noteq> []" "list_all isWordChar ident"
  shows "classMatchAt r = Some (takeWhile isWordChar (ident @ post))"
    and "takeWhile isWordChar (ident @ post) \<noteq> []"
proof -
  have a: "lit ''export'' r = Some (w1 @ ''class'' @ w2 @ ident @ post)"
    using assms(1) by (simp add: lit_Some)
  have b: "ws1 (w1 @ (''class'' @ w2 @ ident @ post)) = Some (''class'' @ w2 @ ident @ post)"
    using assms(2,3) by (intro ws1_append) (simp_all add: isSpace_def)
  have d: "lit ''class'' (''class'' @ w2 @ ident @ post) = Some (w2 @ ident @ post)"
    by (simp add: lit_Some)
  from assms(6,7) have h: "isWordChar (hd ident)" by (cases ident) simp_all
  then have "\<not> isSpace (hd (ident @ post))" using assms(6) by (simp add: word_not_space)
  then have e: "ws1 (w2 @ (ident @ post)) = Some (ident @ post)"
    using assms(4,5) by (intro ws1_append) simp_all
  have m: "matchSeq [lit ''export'', ws1, lit ''class'', ws1] r = Some (ident @ post)"
    using a b d e by simp
  show n: "takeWhile isWordChar (ident @ post) \<noteq> []"
    using h assms(6) by (cases ident) simp_all
  show "classMatchAt r = Some (takeWhile isWordChar (ident @ post))"
    using m n by (simp add: classMatchAt_def Let_def)
qed

lemma classMatchAt_iff: "classMatchAt r = Some c \<longleftrightarrow> spec_exportedClassAt r c"
proof
  assume "classMatchAt r = Some c" then show "spec_exportedClassAt r c" by (rule classMatchAt_sound)
next
  assume "spec_exportedClassAt r c"
  then obtain w1 w2 post where p: "r = ''export'' @ w1 @ ''class'' @ w2 @ c @ post"
    "w1 \<noteq> []" "list_all isSpace w1" "w2 \<noteq> []" "list_all isSpace w2"
    "c \<noteq> []" "list_all isWordChar c" "post = [] \<or> \<not> isWordChar (hd post)"
    unfolding spec_exportedClassAt_def by blast
  have "takeWhile isWordChar (c @ post) = c"
    using p(7,8) by (cases post) (auto simp: list_all_iff takeWhile_append)
  with classMatchAt_complete(1) [OF p(1-7)] show "classMatchAt r = Some c" by simp
qed

lemma classMatch_None_iff: "classMatch s = None \<longleftrightarrow> \<not> spec_hasExportedClass s"
proof
  assume n: "classMatch s = None"
  show "\<not> spec_hasExportedClass s"
  proof
    assume "spec_hasExportedClass s"
    then obtain pre w1 w2 ident post where p: "s = pre @ ''export'' @ w1 @ ''class'' @ w2 @ ident @ post"
      "w1 \<noteq> []" "list_all isSpace w1" "w2 \<noteq> []" "list_all isSpace w2"
      "ident \<noteq> []" "list_all isWordChar ident"
      unfolding spec_hasExportedClass_def by blast
    define r where "r = ''export'' @ w1 @ ''class'' @ w2 @ ident @ post"
    have "classMatchAt r \<noteq> None"
      using classMatchAt_complete(1) [OF r_def p(2-7)] by simp
    moreover have "r \<in> set (tails s)" using p(1) r_def tails_iff by blast
    ultimately show False using n by (simp add: classMatch_def firstMatch_None)
  qed
next
  assume h: "\<not> spec_hasExportedClass s"
  show "classMatch s = None"
  proof (rule ccontr)
    assume "classMatch s \<noteq> None"
    then obtain c where "firstMatch classMatchAt s = Some c" by (auto simp: classMatch_def)
    then obtain n where "classMatchAt (drop n s) = Some c" by (auto simp: firstMatch_Some)
    then have "spec_exportedClassAt (drop n s) c" by (rule classMatchAt_sound)
    then obtain w1 w2 post where p: "drop n s = ''export'' @ w1 @ ''class'' @ w2 @ c @ post"
      "w1 \<noteq> []" "list_all isSpace w1" "w2 \<noteq> []" "list_all isSpace w2"
      "c \<noteq> []" "list_all isWordChar c"
      unfolding spec_exportedClassAt_def by blast
    have "s = take n s @ drop n s" by simp
    with p have "spec_hasExportedClass s" unfolding spec_hasExportedClass_def by metis
    with h show False by simp
  qed
qed

lemma endsWith_iff: "endsWith s suf \<longleftrightarrow> (\<exists>b. s = b @ suf)"
proof
  assume "endsWith s suf"
  then have "s = take (length s - length suf) s @ suf"
    by (metis append_take_drop_id endsWith_def)
  then show "\<exists>b. s = b @ suf" by blast
next
  assume "\<exists>b. s = b @ suf"
  then show "endsWith s suf" by (auto simp: endsWith_def)
qed

lemma replaceSuffix_cases:
  "(\<exists>b. s = b @ suf \<and> replaceSuffix suf r s = b @ r) \<or>
   ((\<forall>b. s \<noteq> b @ suf) \<and> replaceSuffix suf r s = s)"
proof (cases "endsWith s suf")
  case True
  then obtain b where "s = b @ suf" using endsWith_iff by blast
  then show ?thesis by (auto simp: replaceSuffix_def endsWith_def)
next
  case False
  then show ?thesis by (auto simp: replaceSuffix_def endsWith_iff)
qed

lemma matchSeq_Cons_Some:
  "matchSeq (m # ms) s = Some e \<longleftrightarrow> (\<exists>r. m s = Some r \<and> matchSeq ms r = Some e)"
  by (simp split: option.splits)

lemma matchSeq_Nil_Some: "matchSeq [] s = Some e \<longleftrightarrow> e = s"
  by auto

lemma reTinyintType_sound:
  assumes "reTinyintType meta"
  shows "tinyintTypeText meta"
proof -
  from assms obtain pre r e where pre: "meta = pre @ r"
    and m: "matchSeq [litI ''type'', ws0, lit '':'', ws0, oneOf isQuote, litI ''tinyint'', oneOf isQuote] r = Some e"
    unfolding reTinyintType_def testAnywhere_iff by blast
  from m obtain r1 r2 r3 r4 r5 r6 where s: "litI ''type'' r = Some r1" "ws0 r1 = Some r2"
    "lit '':'' r2 = Some r3" "ws0 r3 = Some r4" "oneOf isQuote r4 = Some r5"
    "litI ''tinyint'' r5 = Some r6" "oneOf isQuote r6 = Some e"
    unfolding matchSeq_Cons_Some matchSeq_Nil_Some by blast
  from s(1) obtain k where 1: "r = k @ r1" "map lowerAscii k = map lowerAscii ''type''"
    using litI_Some by blast
  from s(2) obtain w1 where 2: "r1 = w1 @ r2" "list_all isSpace w1" using ws0_Some by blast
  from s(3) have 3: "r2 = '':'' @ r3" by (simp add: lit_Some)
  from s(4) obtain w2 where 4: "r3 = w2 @ r4" "list_all isSpace w2" using ws0_Some by blast
  from s(5) obtain q1 where 5: "r4 = q1 # r5" "isQuote q1" by (auto simp: oneOf_Some)
  from s(6) obtain v where 6: "r5 = v @ r6" "map lowerAscii v = map lowerAscii ''tinyint''"
    using litI_Some by blast
  from s(7) obtain q2 where 7: "r6 = q2 # e" "isQuote q2" by (auto simp: oneOf_Some)
  have "map lowerAscii ''type'' = ''type''" "map lowerAscii ''tinyint'' = ''tinyint''"
    by code_simp+
  then have k: "map lowerAscii k = ''type''" and v: "map lowerAscii v = ''tinyint''"
    using 1(2) 6(2) by simp_all
  have "meta = pre @ k @ w1 @ '':'' @ w2 @ [q1] @ v @ [q2] @ e \<and>
        map lowerAscii k = ''type'' \<and> list_all isSpace w1 \<and> list_all isSpace w2 \<and>
        isQuote q1 \<and> map lowerAscii v = ''tinyint'' \<and> isQuote q2"
    using pre 1(1) 2 3 4 5 6(1) 7 k v by simp
  then show ?thesis
    unfolding tinyintTypeText_def by (intro exI)
qed

lemma reWidthOne_sound:
  assumes "reWidthOne meta"
  shows "widthOneText meta"
proof -
  from assms obtain pre r e where pre: "meta = pre @ r"
    and m: "matchSeq [lit ''width'', ws0, lit '':'', ws0, lit ''1'', wordEnd] r = Some e"
    unfolding reWidthOne_def testAnywhere_iff by blast
  from m obtain r1 r2 r3 r4 r5 where s: "lit ''width'' r = Some r1" "ws0 r1 = Some r2"
    "lit '':'' r2 = Some r3" "ws0 r3 = Some r4" "lit ''1'' r4 = Some r5" "wordEnd r5 = Some e"
    unfolding matchSeq_Cons_Some matchSeq_Nil_Some by blast
  from s(1) have 1: "r = ''width'' @ r1" by (simp add: lit_Some)
  from s(2) obtain w1 where 2: "r1 = w1 @ r2" "list_all isSpace w1" using ws0_Some by blast
  from s(3) have 3: "r2 = '':'' @ r3" by (simp add: lit_Some)
  from s(4) obtain w2 where 4: "r3 = w2 @ r4" "list_all isSpace w2" using ws0_Some by blast
  from s(5) have 5: "r4 = ''1'' @ r5" by (simp add: lit_Some)
  from s(6) have 6: "r5 = [] \<or> \<not> isWordChar (hd r5)" by (simp add: wordEnd_Some)
  have "meta = pre @ ''width'' @ w1 @ '':'' @ w2 @ ''1'' @ r5 \<and>
        list_all isSpace w1 \<and> list_all isSpace w2 \<and> (r5 = [] \<or> \<not> isWordChar (hd r5))"
    using pre 1 2 3 4 5 6 by simp
  then show ?thesis
    unfolding widthOneText_def by (intro exI)
qed

lemma reDecorator_intro:
  assumes "d = pre @ ''@'' @ n @ post" "post = [] \<or> \<not> isWordChar (hd post)"
  shows "reDecorator [n] d"
proof -
  have w: "wordEnd post = Some post"
    using assms(2) by (cases post) (simp_all add: wordEnd_def)
  have "lit n (n @ post) = Some post"
    by (simp add: lit_Some)
  with w have "matchSeq [lit n, wordEnd] (n @ post) = Some post"
    by simp
  then have a: "altOf (map (\<lambda>n. matchSeq [lit n, wordEnd]) [n]) (n @ post) = Some post"
    by simp
  have "lit ''@'' (''@'' @ n @ post) = Some (n @ post)"
    by (simp only: lit_Some)
  with a have "matchSeq [lit ''@'', altOf (map (\<lambda>n. matchSeq [lit n, wordEnd]) [n])] (''@'' @ n @ post) = Some post"
    by (simp only: matchSeq.simps option.case)
  then have "matchSeq [lit ''@'', altOf (map (\<lambda>n. matchSeq [lit n, wordEnd]) [n])] (''@'' @ n @ post) \<noteq> None"
    by simp
  with assms(1) show ?thesis
    unfolding reDecorator_def testAnywhere_iff by blast
qed

subsection \<open>The lines of a field in the generated text\<close>

lemma joinWith_Cons: "ys \<noteq> [] \<Longrightarrow> joinWith sep (x # ys) = x @ sep @ joinWith sep ys"
  by (cases ys) simp_all

lemma joinWith_suffix: "\<exists>pre. joinWith sep (xs @ zs) = pre @ joinWith sep zs"
proof (induction xs)
  case Nil
  have "joinWith sep ([] @ zs) = [] @ joinWith sep zs" by simp
  then show ?case by (rule exI)
next
  case (Cons x xs)
  then obtain pre where pre: "joinWith sep (xs @ zs) = pre @ joinWith sep zs" by (rule exE)
  show ?case
  proof (cases "xs @ zs = []")
    case True
    then have "joinWith sep ((x # xs) @ zs) = x @ joinWith sep zs" by simp
    then show ?thesis by (rule exI)
  next
    case False
    then have "joinWith sep ((x # xs) @ zs) = (x @ sep @ pre) @ joinWith sep zs"
      using pre by (simp add: joinWith_Cons)
    then show ?thesis by (rule exI)
  qed
qed

lemma joinWith_prefix: "\<exists>post. joinWith sep (ys @ zs) = joinWith sep ys @ post"
proof (induction ys)
  case Nil
  have "joinWith sep ([] @ zs) = joinWith sep [] @ joinWith sep zs" by simp
  then show ?case by (rule exI)
next
  case (Cons y ys)
  then obtain post where post: "joinWith sep (ys @ zs) = joinWith sep ys @ post" by (rule exE)
  show ?case
  proof (cases "ys = []")
    case True
    show ?thesis
    proof (cases "zs = []")
      case True
      with \<open>ys = []\<close> have "joinWith sep ((y # ys) @ zs) = joinWith sep (y # ys) @ []" by simp
      then show ?thesis by (rule exI)
    next
      case False
      with \<open>ys = []\<close> have "joinWith sep ((y # ys) @ zs) = joinWith sep (y # ys) @ (sep @ joinWith sep zs)"
        by (simp add: joinWith_Cons)
      then show ?thesis by (rule exI)
    qed
  next
    case False
    then have "joinWith sep ((y # ys) @ zs) = joinWith sep (y # ys) @ post"
      using post by (simp add: joinWith_Cons)
    then show ?thesis by (rule exI)
  qed
qed

lemma joinWith_infix: "\<exists>pre post. joinWith sep (xs @ ys @ zs) = pre @ joinWith sep ys @ post"
proof -
  obtain pre where pre: "joinWith sep (xs @ (ys @ zs)) = pre @ joinWith sep (ys @ zs)"
    using joinWith_suffix [of sep xs "ys @ zs"] by (rule exE)
  obtain post where post: "joinWith sep (ys @ zs) = joinWith sep ys @ post"
    using joinWith_prefix [of sep ys zs] by (rule exE)
  have "joinWith sep (xs @ ys @ zs) = pre @ joinWith sep ys @ post"
    using pre post by simp
  then show ?thesis by (intro exI)
qed

lemma joinWith_block:
  assumes "f \<in> set fs"
  shows "\<exists>pre post. joinWith sep (hdr @ concat (map g fs) @ ftr) = pre @ joinWith sep (g f) @ post"
proof -
  from assms obtain as bs where fs: "fs = as @ f # bs"
    by (auto simp: in_set_conv_decomp)
  have "hdr @ concat (map g fs) @ ftr = (hdr @ concat (map g as)) @ g f @ (concat (map g bs) @ ftr)"
    by (simp add: fs)
  then show ?thesis
    using joinWith_infix [of sep "hdr @ concat (map g as)" "g f" "concat (map g bs) @ ftr"] by simp
qed

lemma genResponseDto_block:
  assumes "f \<in> set (fields_list p)"
  shows "\<exists>pre post. genResponseDto src p = pre @ joinWith nl (resFieldLines f) @ post"
proof -
  define hdr where "hdr = [''import { Expose, Transform } from 'class-transformer';'',
      ''import { boolTransformer, dateTransformer } from 'src/common/util/transformer';''] @
     extractEnumImports src (fields_list p) @
     [[], ''export class '' @ baseName p @ ''ResDto {'']"
  have "genResponseDto src p = joinWith nl (hdr @ concat (map resFieldLines (fields_list p)) @ [''}''])"
    by (simp add: genResponseDto_def genResponseDtoLines_def resClassBody_def hdr_def)
  then show ?thesis
    using joinWith_block [OF assms, of nl hdr resFieldLines "[''}'']"] by simp
qed

lemma genDocDto_block:
  assumes "f \<in> set (requestFields p)"
  shows "\<exists>pre post. genDocDto src p opts = pre @ joinWith nl (docFieldLines opts f) @ post"
proof -
  define hdr where "hdr =
      [''import { IsString, IsOptional, IsInt, IsNotEmpty, IsDate, IsEnum } from 'class-validator';'',
       ''import { Transform } from 'class-transformer';'',
       ''import { PartialType } from '@nestjs/mapped-types';'',
       ''import { CommonDto } from 'src/common/dto/common.dto';'',
       ''import { boolTransformer, dateTransformer } from 'src/common/util/transformer';''] @
      extractEnumImports src (fields_list p) @
      [[], ''export class '' @ (baseName p @ ''Dto'') @ '' extends CommonDto {'']"
  define ftr where "ftr = [''}''] @
      [[], ''export class '' @ baseName p @ ''ReqDto extends PartialType('' @ (baseName p @ ''Dto'') @ '') {}'']"
  have "genDocDto src p opts = joinWith nl (hdr @ concat (map (docFieldLines opts) (requestFields p)) @ ftr)"
    by (simp add: genDocDto_def genDocDtoLines_def docClassBody_def hdr_def ftr_def Let_def)
  then show ?thesis
    using joinWith_block [OF assms, of nl hdr "docFieldLines opts" ftr] by simp
qed

lemma joinWith_lines: "ys \<noteq> [] \<Longrightarrow> joinWith sep (tr @ ys) = concat (map (\<lambda>l. l @ sep) tr) @ joinWith sep ys"
proof (induction tr)
  case Nil
  then show ?case by simp
next
  case (Cons t tr)
  then have "tr @ ys \<noteq> []" by simp
  then have "joinWith sep ((t # tr) @ ys) = t @ sep @ joinWith sep (tr @ ys)"
    by (simp add: joinWith_Cons)
  with Cons show ?case by simp
qed

lemma block_text:
  assumes "\<exists>pre post. text = pre @ joinWith sep block @ post" and "block = tr @ [b, []]"
  shows "\<exists>pre post. text = pre @ concat (map (\<lambda>l. l @ sep) tr) @ b @ sep @ post"
proof -
  from assms(1) obtain pre post where "text = pre @ joinWith sep block @ post"
    by blast
  then have "text = pre @ concat (map (\<lambda>l. l @ sep) tr) @ b @ sep @ post"
    by (simp add: assms(2) joinWith_lines)
  then show ?thesis by (intro exI)
qed

subsection \<open>The scan as a fold over the visited lines\<close>

lemma parseLoop_fold: "parseLoop lines i st = foldl (stepState lines) st (visited lines i)"
proof (induction lines i st rule: parseLoop.induct)
  case (1 lines i st)
  show ?case
  proof (cases "i < length lines")
    case True
    obtain i' st' where s: "parseStep lines i st = (i', st')"
      by (cases "parseStep lines i st")
    then have i': "i' = lineEnd lines i" and st': "st' = stepState lines st i"
      using fst_parseStep [of lines i st] by (simp_all add: stepState_def)
    have "parseLoop lines i st = parseLoop lines (Suc i') st'"
      using True s by (subst parseLoop.simps) simp
    also have "\<dots> = foldl (stepState lines) st' (visited lines (Suc i'))"
      using "1.IH" [OF True s [symmetric]] .
    also have "\<dots> = foldl (stepState lines) st (visited lines i)"
      using True i' st' by (subst (2) visited.simps) simp
    finally show ?thesis .
  next
    case False
    then show ?thesis
      by (subst parseLoop.simps, subst visited.simps) simp
  qed
qed

lemma step_decorator:
  assumes "isDecoratorLine (lines ! k)"
  shows "fieldsAcc (stepState lines st k) = fieldsAcc st"
    and "decoratorBuf (stepState lines st k) = decoratorBuf st @ [trim (lines ! k)]"
  using assms
  by (simp_all add: stepState_def parseStep_def isDecoratorLine_def Let_def split: prod.splits option.splits)

lemma step_property:
  assumes "isPropertyLine (lines ! k)"
  shows "\<exists>f. fieldsAcc (stepState lines st k) = fieldsAcc st @ [f] \<and>
           decorators f = decoratorBuf st \<and> rawColumnMeta f = pendingColumnMeta st \<and>
           (name f, tsType f) = propertyOf (lines ! k)"
    and "decoratorBuf (stepState lines st k) = []"
    and "pendingColumnMeta (stepState lines st k) = None"
  using assms
  by (auto simp: stepState_def parseStep_def isPropertyLine_def propertyOf_def Let_def split: prod.splits option.splits)

lemma step_other:
  assumes "\<not> isDecoratorLine (lines ! k)" "\<not> isPropertyLine (lines ! k)"
  shows "stepState lines st k = st"
  using assms
  by (auto simp: stepState_def parseStep_def isPropertyLine_def isDecoratorLine_def Let_def split: prod.splits option.splits)


lemma fold_fields_prefix: "\<exists>more. fieldsAcc (foldl (stepState lines) st ks) = fieldsAcc st @ more"
proof (induction ks arbitrary: st)
  case Nil
  then show ?case by simp
next
  case (Cons k ks)
  obtain more where m: "fieldsAcc (foldl (stepState lines) (stepState lines st k) ks) =
      fieldsAcc (stepState lines st k) @ more"
    using Cons [of "stepState lines st k"] by blast
  have "\<exists>one. fieldsAcc (stepState lines st k) = fieldsAcc st @ one"
  proof (cases "isDecoratorLine (lines ! k)")
    case True
    then show ?thesis by (simp add: step_decorator)
  next
    case False
    show ?thesis
    proof (cases "isPropertyLine (lines ! k)")
      case True
      then show ?thesis using step_property(1) [of lines k st] by blast
    next
      case False
      with \<open>\<not> isDecoratorLine (lines ! k)\<close> show ?thesis by (simp add: step_other)
    qed
  qed
  then obtain one where "fieldsAcc (stepState lines st k) = fieldsAcc st @ one" by blast
  with m show ?case by simp
qed

lemma fold_before_first_property:
  assumes "list_all (\<lambda>j. \<not> isPropertyLine (lines ! j)) ks"
  shows "fieldsAcc (foldl (stepState lines) st ks) = fieldsAcc st \<and>
         decoratorBuf (foldl (stepState lines) st ks) =
           decoratorBuf st @ map (\<lambda>j. trim (lines ! j)) (filter (\<lambda>j. isDecoratorLine (lines ! j)) ks)"
  using assms
proof (induction ks arbitrary: st)
  case Nil
  then show ?case by simp
next
  case (Cons k ks)
  then have np: "\<not> isPropertyLine (lines ! k)"
    and rest: "list_all (\<lambda>j. \<not> isPropertyLine (lines ! j)) ks"
    by simp_all
  note ih = Cons.IH [OF rest, of "stepState lines st k"]
  show ?case
  proof (cases "isDecoratorLine (lines ! k)")
    case True
    then show ?thesis using ih by (simp add: step_decorator)
  next
    case False
    from False np have "stepState lines st k = st" by (rule step_other)
    with False ih show ?thesis by simp
  qed
qed

lemma fold_properties:
  "map (\<lambda>f. (name f, tsType f)) (fieldsAcc (foldl (stepState lines) st ks)) =
   map (\<lambda>f. (name f, tsType f)) (fieldsAcc st) @
   map (\<lambda>j. propertyOf (lines ! j)) (filter (\<lambda>j. isPropertyLine (lines ! j)) ks)"
proof (induction ks arbitrary: st)
  case Nil
  then show ?case by simp
next
  case (Cons k ks)
  note ih = Cons [of "stepState lines st k"]
  show ?case
  proof (cases "isPropertyLine (lines ! k)")
    case True
    then obtain f where "fieldsAcc (stepState lines st k) = fieldsAcc st @ [f]"
      "(name f, tsType f) = propertyOf (lines ! k)"
      using step_property(1) [of lines k st] by blast
    with True ih show ?thesis by simp
  next
    case False
    have "fieldsAcc (stepState lines st k) = fieldsAcc st"
    proof (cases "isDecoratorLine (lines ! k)")
      case True
      then show ?thesis by (simp add: step_decorator)
    next
      case d: False
      with False show ?thesis by (simp add: step_other)
    qed
    with False ih show ?thesis by simp
  qed
qed

lemma parseFields_fold:
  "parseFields src = fieldsAcc (foldl (stepState (splitLines src)) initState (visited (splitLines src) 0))"
  by (simp add: parseFields_def parseLoop_fold)

lemma parseEntity_fields: "parseEntity src = Some p \<Longrightarrow> fields_list p = parseFields src"
  by (auto simp: parseEntity_def split: option.splits if_splits)


subsection \<open>The whole match of the declaration pattern\<close>

lemma modifier_suffix:
  assumes "matchSeq [lit kw, ws1] line = Some r"
  shows "\<exists>pre. line = pre @ r"
proof -
  from assms obtain a where a: "lit kw line = Some a" "ws1 a = Some r"
    unfolding matchSeq_Cons_Some matchSeq_Nil_Some by blast
  from a(1) have "line = kw @ a" by (simp add: lit_Some)
  moreover from a(2) obtain w where "a = w @ r" using ws1_Some by blast
  ultimately have "line = (kw @ w) @ r" by simp
  then show ?thesis by (rule exI)
qed

lemma altOf_Some: "altOf ms s = Some r \<Longrightarrow> \<exists>m \<in> set ms. m s = Some r"
  by (induction ms) (auto split: option.splits)

lemma propMatch_whole:
  assumes "propMatch line = Some (whole, ident, ty)"
  shows "\<exists>body. whole = body @ '';''"
proof -
  define r0 where "r0 = (case altOf [matchSeq [lit ''public'', ws1], matchSeq [lit ''private'', ws1],
                            matchSeq [lit ''readonly'', ws1]] line of
                  Some r \<Rightarrow> r
                | None \<Rightarrow> line)"
  have s0: "\<exists>pre. line = pre @ r0"
  proof (cases "altOf [matchSeq [lit ''public'', ws1], matchSeq [lit ''private'', ws1],
                            matchSeq [lit ''readonly'', ws1]] line")
    case None
    then have "line = [] @ r0" by (simp add: r0_def)
    then show ?thesis by (rule exI)
  next
    case (Some r)
    then obtain m where "m \<in> set [matchSeq [lit ''public'', ws1], matchSeq [lit ''private'', ws1],
                            matchSeq [lit ''readonly'', ws1]]" "m line = Some r"
      using altOf_Some by blast
    then have "matchSeq [lit ''public'', ws1] line = Some r \<or>
               matchSeq [lit ''private'', ws1] line = Some r \<or>
               matchSeq [lit ''readonly'', ws1] line = Some r"
      by auto
    then have "\<exists>pre. line = pre @ r" using modifier_suffix by blast
    with Some show ?thesis by (simp add: r0_def)
  qed
  from assms obtain c cs where r0: "r0 = c # cs"
    unfolding propMatch_def r0_def [symmetric] by (cases r0) simp_all
  define r1 where "r1 = dropWhile isWordChar cs"
  define r2 where "r2 = (case lit ''?'' r1 of Some r \<Rightarrow> r | None \<Rightarrow> r1)"
  have s1: "\<exists>pre. r0 = pre @ r1"
  proof -
    have "r0 = (c # takeWhile isWordChar cs) @ r1" by (simp add: r0 r1_def)
    then show ?thesis by (rule exI)
  qed
  have s2: "\<exists>pre. r1 = pre @ r2"
  proof (cases "lit ''?'' r1")
    case None
    then have "r1 = [] @ r2" by (simp add: r2_def)
    then show ?thesis by (rule exI)
  next
    case (Some r)
    then have "r2 = r" by (simp add: r2_def)
    moreover from Some have "r1 = ''?'' @ r" by (simp only: lit_Some)
    ultimately have "r1 = ''?'' @ r2" by simp
    then show ?thesis by (rule exI)
  qed
  from assms obtain r3 where r3: "lit '':'' r2 = Some r3"
    and w: "whole = take (length line - length (drop (Suc (length (takeWhile (\<lambda>x. x \<noteq> CHR '';'') r3))) r3)) line"
    and seg: "length (takeWhile (\<lambda>x. x \<noteq> CHR '';'') r3) \<noteq> length r3"
    unfolding propMatch_def r0_def [symmetric] r0 
    by (simp add: Let_def r1_def [symmetric] r2_def [symmetric] split: if_splits option.splits)
  from r3 have s3: "r2 = '':'' @ r3" by (simp add: lit_Some)
  from s0 s1 s2 s3 obtain pre where pre: "line = pre @ r3"
    by (metis append.assoc)
  define seg where "seg = takeWhile (\<lambda>x. x \<noteq> CHR '';'') r3"
  have d: "dropWhile (\<lambda>x. x \<noteq> CHR '';'') r3 \<noteq> []"
    using seg by (metis append_Nil2 takeWhile_dropWhile_id)
  then obtain x rest where x: "dropWhile (\<lambda>x. x \<noteq> CHR '';'') r3 = x # rest"
    by (cases "dropWhile (\<lambda>x. x \<noteq> CHR '';'') r3") simp_all
  have "x = CHR '';''"
    using hd_dropWhile [OF d] x by simp
  then have r3eq: "r3 = seg @ CHR '';'' # rest"
    using x takeWhile_dropWhile_id [of "\<lambda>x. x \<noteq> CHR '';''" r3] by (simp add: seg_def)
  then have "drop (Suc (length seg)) r3 = rest" by simp
  then have "whole = take (length line - length rest) line"
    using w by (simp add: seg_def)
  also have "\<dots> = pre @ seg @ '';''"
    by (simp add: pre r3eq)
  finally have "whole = (pre @ seg) @ '';''" by simp
  then show ?thesis by (rule exI)
qed

lemma marker_never_seen: "propMatch line = Some (whole, ident, ty) \<Longrightarrow> \<not> endsWith whole ''?''"
proof -
  assume "propMatch line = Some (whole, ident, ty)"
  then obtain body where "whole = body @ '';''" using propMatch_whole by blast
  then show ?thesis by (simp add: endsWith_def)
qed

section \<open>Properties\<close>

lemma parse_exampleSource: "parseEntity exampleSource = Some exampleEntity"
  by code_simp

subsection \<open>The request DTO\<close>

text \<open>
  The flag \<^verbatim>\<open>isRequired\<close> of the loop is: not forceOptional, and the field is not
  optional, and it is no generated primary key. So the flag is false for every field one
  of whose decorators has the text \<^verbatim>\<open>@PrimaryGeneratedColumn\<close> with no word character
  after it, whatever forceOptional is. What the generator writes for the flag is another
  matter, taken up with the request DTO below.
\<close>

lemma isRequired_flag:
  "isRequired opts f = (\<not> forceOptional opts \<and> \<not> optional f \<and> \<not> isGeneratedPrimary f) \<and>
   (isGeneratedPrimary f \<longrightarrow> \<not> isRequired (opts\<lparr>forceOptional := b\<rparr>) f) \<and>
   (d \<in> set (decorators f) \<and> d = pre @ ''@PrimaryGeneratedColumn'' @ post \<and>
    (post = [] \<or> \<not> isWordChar (hd post)) \<longrightarrow> \<not> isRequired (opts\<lparr>forceOptional := b\<rparr>) f)"
proof -
  have "isGeneratedPrimary f"
    if "d \<in> set (decorators f)" "d = pre @ ''@PrimaryGeneratedColumn'' @ post"
      "post = [] \<or> \<not> isWordChar (hd post)"
  proof -
    from that(2) have "d = pre @ ''@'' @ ''PrimaryGeneratedColumn'' @ post"
      by simp
    then have "reDecorator [''PrimaryGeneratedColumn''] d"
      using that(3) by (rule reDecorator_intro)
    with that(1) show ?thesis
      unfolding isGeneratedPrimary_def list_ex_iff by blast
  qed
  then show ?thesis
    by (auto simp: isRequired_def)
qed
lemma isRequired_flag_example:
  "isGeneratedPrimary idField \<and> ''@PrimaryGeneratedColumn()'' \<in> set (decorators idField) \<and>
   \<not> isRequired strictOpts idField \<and> \<not> isRequired laxOpts idField \<and>
   isRequired strictOpts titleField"
proof -
  have g: "isGeneratedPrimary idField"
    by code_simp
  have s: "strictOpts\<lparr>forceOptional := False\<rparr> = strictOpts"
    and l: "strictOpts\<lparr>forceOptional := True\<rparr> = laxOpts"
    by (simp_all add: strictOpts_def laxOpts_def)
  have m: "''@PrimaryGeneratedColumn()'' \<in> set (decorators idField)"
    by (simp add: idField_def)
  have e: "''@PrimaryGeneratedColumn()'' = [] @ ''@PrimaryGeneratedColumn'' @ ''()''"
    by simp
  have w: "''()'' = [] \<or> \<not> isWordChar (hd ''()'')"
    by code_simp
  note strict = isRequired_flag [of strictOpts idField False "''@PrimaryGeneratedColumn()''" "[]" "''()''"]
  note lax = isRequired_flag [of strictOpts idField True]
  have "\<not> isRequired (strictOpts\<lparr>forceOptional := False\<rparr>) idField"
    using strict [THEN conjunct2, THEN conjunct2] m e w by (elim impE) (intro conjI)
  then have "\<not> isRequired strictOpts idField"
    unfolding s .
  moreover have "\<not> isRequired laxOpts idField"
    using g lax by (simp add: l)
  moreover have "isRequired strictOpts titleField"
    by code_simp
  ultimately show ?thesis
    using g m by simp
qed



text \<open>
  C1. The claim: for a retained field, \<^verbatim>\<open>@IsNotEmpty()\<close> is written exactly when the field
  is required and of type string, and \<^verbatim>\<open>@IsOptional()\<close> exactly when it is not required.
  The generator hands \<^verbatim>\<open>!isRequired\<close> to the parameter \<^verbatim>\<open>required\<close> of
  \<^verbatim>\<open>getValidatorDecorators\<close>, so the two are exchanged: with forceOptional off, the
  required string field \<^verbatim>\<open>title\<close> gets \<^verbatim>\<open>@IsOptional()\<close> and no
  \<^verbatim>\<open>@IsNotEmpty()\<close>, and the generated key \<^verbatim>\<open>id\<close>, which is not required, gets no
  \<^verbatim>\<open>@IsOptional()\<close>.
\<close>

theorem required_string_field_marked_optional:
  "map_option (\<lambda>p. map (isRequired strictOpts) (requestFields p)) (parseEntity exampleSource) =
     Some [False, True] \<and>
   map_option (\<lambda>p. docClassBody p strictOpts) (parseEntity exampleSource) =
     Some [''  @IsInt()'', ''  id: number;'', [],
           ''  @IsString()'', ''  @IsOptional()'', ''  title: string;'', []]"
  by code_simp

text \<open>
  The exchange holds for every field and every option: \<^verbatim>\<open>@IsOptional()\<close> is written
  exactly for the required fields, and \<^verbatim>\<open>@IsNotEmpty()\<close> exactly for the string fields
  that are not required.
\<close>

lemma validators_follow_negated_flag:
  "(''@IsOptional()'' \<in> set (getValidatorDecorators f (\<not> isRequired opts f))) = isRequired opts f"
  "(''@IsNotEmpty()'' \<in> set (getValidatorDecorators f (\<not> isRequired opts f))) =
     (\<not> isRequired opts f \<and> filter (\<lambda>c. \<not> isSpace c) (tsType f) = ''string'')"
  by (auto simp: getValidatorDecorators_def Let_def)

lemma force_optional_writes_no_IsOptional:
  "docClassBody exampleEntity laxOpts =
     [''  @IsInt()'', ''  id: number;'', [],
      ''  @IsString()'', ''  @IsNotEmpty()'', ''  title: string;'', []]"
  by code_simp

text \<open>
  C5. The claim: the flag of a retained field is not forceOptional, and not optional, and
  no generated primary key, and so a generated primary key is never marked required in
  the request DTO, for either value of forceOptional. The flag is so (it is false for the
  key below), but the generator hands its negation to \<^verbatim>\<open>getValidatorDecorators\<close>, the
  slip of C1: the generated key \<^verbatim>\<open>id: string\<close> is written with \<^verbatim>\<open>@IsNotEmpty()\<close> and
  without \<^verbatim>\<open>@IsOptional()\<close>, that is, marked required, and the text is the same for
  both values of forceOptional.
\<close>

theorem generated_primary_marked_required:
  "map_option (\<lambda>p. map isGeneratedPrimary (fields_list p)) (parseEntity uuidSource) = Some [True] \<and>
   map_option (\<lambda>p. map (isRequired strictOpts) (requestFields p)) (parseEntity uuidSource) = Some [False] \<and>
   map_option (\<lambda>p. genDocDto uuidSource p strictOpts) (parseEntity uuidSource) = Some (joinWith nl
     [''import { IsString, IsOptional, IsInt, IsNotEmpty, IsDate, IsEnum } from 'class-validator';'',
      ''import { Transform } from 'class-transformer';'',
      ''import { PartialType } from '@nestjs/mapped-types';'',
      ''import { CommonDto } from 'src/common/dto/common.dto';'',
      ''import { boolTransformer, dateTransformer } from 'src/common/util/transformer';'',
      [],
      ''export class UserDto extends CommonDto {'',
      ''  @IsString()'',
      ''  @IsNotEmpty()'',
      ''  id: string;'',
      [],
      ''}'',
      [],
      ''export class UserReqDto extends PartialType(UserDto) {}'']) \<and>
   map_option (\<lambda>p. genDocDto uuidSource p laxOpts) (parseEntity uuidSource) =
     map_option (\<lambda>p. genDocDto uuidSource p strictOpts) (parseEntity uuidSource)"
  by code_simp

subsection \<open>The response DTO\<close>

text \<open>
  C6. The text of the response DTO is the import lines, the class header, the lines of
  every field of the entity, relations too, in order, and the closing brace, joined by
  line feeds; so for every field the text has its transform decorators, then the exposure
  marker \<^verbatim>\<open>@Expose()\<close>, then the declaration with its type, each on a line of its own. A relation has no transform decorator; another
  field has the boolean one if \<^verbatim>\<open>isTinyIntBoolean\<close> and the date one if it is date-typed
  and no audit column. The declared type is, in this order: the result of
  \<^verbatim>\<open>toRelationResDtoType\<close> for a relation; boolean for \<^verbatim>\<open>isTinyIntBoolean\<close>; Date for a
  date-typed audit column; string for another date-typed field; else the type as declared.
\<close>

theorem response_fields:
  "genResponseDto src p =
     joinWith nl
       ([''import { Expose, Transform } from 'class-transformer';'',
         ''import { boolTransformer, dateTransformer } from 'src/common/util/transformer';''] @
        extractEnumImports src (fields_list p) @
        [[], ''export class '' @ baseName p @ ''ResDto {''] @
        concat (map resFieldLines (fields_list p)) @ [''}'']) \<and>
   (f \<in> set (fields_list p) \<longrightarrow>
      (\<exists>pre tr post. genResponseDto src p =
           pre @ concat (map (\<lambda>l. l @ nl) tr) @ ''  @Expose()'' @ nl @
           ''  '' @ name f @ '': '' @ resTypeStr f @ '';'' @ nl @ post \<and>
         tr = (if isRelation f then []
               else (if isTinyIntBoolean f
                     then [''  @Transform(({ value }) => boolTransformer.from(value))''] else []) @
                    (if isDateColumn f \<and> \<not> isAudit f
                     then [''  @Transform(({ value }) => dateTransformer.from(value))''] else [])))) \<and>
   (\<exists>tr. resFieldLines f = tr @ [''  @Expose()'', ''  '' @ name f @ '': '' @ resTypeStr f @ '';'', []] \<and>
      tr = (if isRelation f then []
            else (if isTinyIntBoolean f
                  then [''  @Transform(({ value }) => boolTransformer.from(value))''] else []) @
                 (if isDateColumn f \<and> \<not> isAudit f
                  then [''  @Transform(({ value }) => dateTransformer.from(value))''] else []))) \<and>
   (isRelation f \<longrightarrow> resTypeStr f = toRelationResDtoType (trim (tsType f))) \<and>
   (\<not> isRelation f \<and> isTinyIntBoolean f \<longrightarrow> resTypeStr f = ''boolean'') \<and>
   (\<not> isRelation f \<and> \<not> isTinyIntBoolean f \<and> isAudit f \<and> isDateColumn f \<longrightarrow>
      resTypeStr f = ''Date'') \<and>
   (\<not> isRelation f \<and> \<not> isTinyIntBoolean f \<and> \<not> isAudit f \<and> isDateColumn f \<longrightarrow>
      resTypeStr f = ''string'') \<and>
   (\<not> isRelation f \<and> \<not> isTinyIntBoolean f \<and> \<not> isDateColumn f \<longrightarrow> resTypeStr f = trim (tsType f))"
proof -
  define tr where "tr = (if isRelation f then []
            else (if isTinyIntBoolean f
                  then [''  @Transform(({ value }) => boolTransformer.from(value))''] else []) @
                 (if isDateColumn f \<and> \<not> isAudit f
                  then [''  @Transform(({ value }) => dateTransformer.from(value))''] else []))"
  have whole: "genResponseDto src p =
     joinWith nl
       ([''import { Expose, Transform } from 'class-transformer';'',
         ''import { boolTransformer, dateTransformer } from 'src/common/util/transformer';''] @
        extractEnumImports src (fields_list p) @
        [[], ''export class '' @ baseName p @ ''ResDto {''] @
        concat (map resFieldLines (fields_list p)) @ [''}''])"
    by (simp add: genResponseDto_def genResponseDtoLines_def resClassBody_def)
  have shape: "resFieldLines f = tr @ [''  @Expose()'', ''  '' @ name f @ '': '' @ resTypeStr f @ '';'', []]"
    by (simp add: resFieldLines_def tr_def)
  then have shape': "resFieldLines f = (tr @ [''  @Expose()'']) @ [''  '' @ name f @ '': '' @ resTypeStr f @ '';'', []]"
    by simp
  have field: "\<exists>pre tr' post. genResponseDto src p =
           pre @ concat (map (\<lambda>l. l @ nl) tr') @ ''  @Expose()'' @ nl @
           ''  '' @ name f @ '': '' @ resTypeStr f @ '';'' @ nl @ post \<and> tr' = tr"
    if mem: "f \<in> set (fields_list p)"
  proof -
    obtain pre post where "genResponseDto src p =
        pre @ concat (map (\<lambda>l. l @ nl) (tr @ [''  @Expose()''])) @
        (''  '' @ name f @ '': '' @ resTypeStr f @ '';'') @ nl @ post"
      using block_text [OF genResponseDto_block [OF mem] shape'] by blast
    then have "genResponseDto src p =
           pre @ concat (map (\<lambda>l. l @ nl) tr) @ ''  @Expose()'' @ nl @
           ''  '' @ name f @ '': '' @ resTypeStr f @ '';'' @ nl @ post \<and> tr = tr"
      by simp
    then show ?thesis by (intro exI)
  qed
  have types: "(isRelation f \<longrightarrow> resTypeStr f = toRelationResDtoType (trim (tsType f))) \<and>
   (\<not> isRelation f \<and> isTinyIntBoolean f \<longrightarrow> resTypeStr f = ''boolean'') \<and>
   (\<not> isRelation f \<and> \<not> isTinyIntBoolean f \<and> isAudit f \<and> isDateColumn f \<longrightarrow>
      resTypeStr f = ''Date'') \<and>
   (\<not> isRelation f \<and> \<not> isTinyIntBoolean f \<and> \<not> isAudit f \<and> isDateColumn f \<longrightarrow>
      resTypeStr f = ''string'') \<and>
   (\<not> isRelation f \<and> \<not> isTinyIntBoolean f \<and> \<not> isDateColumn f \<longrightarrow> resTypeStr f = trim (tsType f))"
    by (simp add: resTypeStr_def)
  have shapeE: "\<exists>tr'. resFieldLines f = tr' @ [''  @Expose()'', ''  '' @ name f @ '': '' @ resTypeStr f @ '';'', []] \<and> tr' = tr"
    using shape by simp
  show ?thesis
    unfolding tr_def [symmetric]
    using whole field shapeE types by (intro conjI impI) simp_all
qed

theorem response_fields_witness:
  "isRelation commentsField \<and> resTypeStr commentsField = ''CommentResDto[]'' \<and>
   \<not> isRelation createdAtField \<and> \<not> isTinyIntBoolean createdAtField \<and> isAudit createdAtField \<and>
   isDateColumn createdAtField \<and> resTypeStr createdAtField = ''Date'' \<and>
   commentsField \<in> set (fields_list exampleEntity) \<and>
   (\<exists>pre post. genResponseDto exampleSource exampleEntity =
      pre @ ''  @Expose()'' @ nl @ ''  comments: CommentResDto[];'' @ nl @ post) \<and>
   genResponseDto exampleSource exampleEntity = joinWith nl
     [''import { Expose, Transform } from 'class-transformer';'',
      ''import { boolTransformer, dateTransformer } from 'src/common/util/transformer';'',
      [],
      ''export class DocResDto {'',
      ''  @Expose()'',
      ''  id: number;'',
      [],
      ''  @Expose()'',
      ''  title: string;'',
      [],
      ''  @Expose()'',
      ''  comments: CommentResDto[];'',
      [],
      ''  @Expose()'',
      ''  createdAt: Date;'',
      [],
      ''}'']"
proof -
  note t = response_fields [of exampleSource exampleEntity commentsField]
  have r: "isRelation commentsField"
    by code_simp
  have rt: "toRelationResDtoType (trim (tsType commentsField)) = ''CommentResDto[]''"
    by code_simp
  have c: "resTypeStr commentsField = ''CommentResDto[]''"
    using r rt t by simp
  have a: "\<not> isRelation createdAtField" "\<not> isTinyIntBoolean createdAtField"
    "isAudit createdAtField" "isDateColumn createdAtField"
    by code_simp+
  have d: "resTypeStr createdAtField = ''Date''"
    using a response_fields [where f = createdAtField] by simp
  have mem: "commentsField \<in> set (fields_list exampleEntity)"
    by (simp add: exampleEntity_def)
  obtain pre tr post where e: "genResponseDto exampleSource exampleEntity =
      pre @ concat (map (\<lambda>l. l @ nl) tr) @ ''  @Expose()'' @ nl @
      ''  '' @ name commentsField @ '': '' @ resTypeStr commentsField @ '';'' @ nl @ post"
    and tr: "tr = (if isRelation commentsField then []
               else (if isTinyIntBoolean commentsField
                     then [''  @Transform(({ value }) => boolTransformer.from(value))''] else []) @
                    (if isDateColumn commentsField \<and> \<not> isAudit commentsField
                     then [''  @Transform(({ value }) => dateTransformer.from(value))''] else []))"
    using t [THEN conjunct2, THEN conjunct1, THEN mp, OF mem] by blast
  have "genResponseDto exampleSource exampleEntity =
      pre @ ''  @Expose()'' @ nl @ ''  comments: CommentResDto[];'' @ nl @ post"
    using e tr r c by (simp add: commentsField_def)
  then have x: "\<exists>pre post. genResponseDto exampleSource exampleEntity =
      pre @ ''  @Expose()'' @ nl @ ''  comments: CommentResDto[];'' @ nl @ post"
    by (intro exI)
  have w: "genResponseDto exampleSource exampleEntity = joinWith nl
     [''import { Expose, Transform } from 'class-transformer';'',
      ''import { boolTransformer, dateTransformer } from 'src/common/util/transformer';'',
      [],
      ''export class DocResDto {'',
      ''  @Expose()'',
      ''  id: number;'',
      [],
      ''  @Expose()'',
      ''  title: string;'',
      [],
      ''  @Expose()'',
      ''  comments: CommentResDto[];'',
      [],
      ''  @Expose()'',
      ''  createdAt: Date;'',
      [],
      ''}'']"
    by code_simp
  show ?thesis
    using r c a d mem x w by (intro conjI)
qed

subsection \<open>The optional flag of a parsed field\<close>

text \<open>
  C2. The claim: the flag \<^verbatim>\<open>optional\<close> of a parsed field is true if and only if the
  declaration has the marker \<^verbatim>\<open>?\<close> or the column metadata or a decorator has a
  nullable-true marker. The source tests \<^verbatim>\<open>/\?$/\<close> on the whole match of the
  declaration pattern, and that match ends with \<^verbatim>\<open>;\<close>: the marker is never seen. A
  declaration \<^verbatim>\<open>subtitle?: string;\<close> under a plain \<^verbatim>\<open>@Column()\<close> gives a field that
  is not optional.
\<close>

theorem optional_marker_ignored:
  "map_option fields_list (parseEntity optionalMarkerSource) =
     Some [\<lparr>name = ''subtitle'', tsType = ''string'', optional = False,
            decorators = [''@Column()''], rawColumnMeta = None\<rparr>]"
  by code_simp

text \<open>
  For every property line: the flag of the field emitted is the nullable test on the
  pending metadata and the decorators, and nothing else.
\<close>

lemma optional_is_nullable_only:
  assumes "isPropertyLine (lines ! k)"
  shows "\<exists>f. fieldsAcc (stepState lines st k) = fieldsAcc st @ [f] \<and>
           optional f = reNullable (orEmpty (pendingColumnMeta st) @ nl @ joinWith nl (decoratorBuf st))"
  using assms marker_never_seen
  by (auto simp: stepState_def parseStep_def isPropertyLine_def Let_def split: prod.splits option.splits)

subsection \<open>The type of a relation in the response DTO\<close>

text \<open>
  C7. \<^verbatim>\<open>toRelationResDtoType\<close> maps \<^verbatim>\<open>DocEntity\<close> to \<^verbatim>\<open>DocResDto\<close>, and
  \<^verbatim>\<open>DocEntity[]\<close> and \<^verbatim>\<open>Array<DocEntity>\<close> to \<^verbatim>\<open>DocResDto[]\<close>. One step takes one
  wrapper off: a plain array suffix always, a generic array wrapper around a text that is
  not empty and has no line terminator. So for a name \<open>x\<close>Entity under any nesting of
  wrappers (all of one kind, or mixed) the result is \<open>x\<close>ResDto with one plain array suffix
  per wrapper, and a name that does not end with Entity is returned as it is. A name is a
  text of word characters.
\<close>

theorem toRelationResDtoType_wrappers:
  "toRelationResDtoType ''DocEntity'' = ''DocResDto'' \<and>
   toRelationResDtoType ''DocEntity[]'' = ''DocResDto[]'' \<and>
   toRelationResDtoType ''Array<DocEntity>'' = ''DocResDto[]'' \<and>
   toRelationResDtoType (s @ ''[]'') = toRelationResDtoType s @ ''[]'' \<and>
   (s \<noteq> [] \<and> list_all (\<lambda>c. \<not> isLineTerminator c) s \<longrightarrow>
      toRelationResDtoType (''Array<'' @ s @ ''>'') = toRelationResDtoType s @ ''[]'') \<and>
   (list_all isWordChar x \<longrightarrow>
      toRelationResDtoType (foldr wrapType ws (x @ ''Entity'')) =
        x @ ''ResDto'' @ concat (replicate (length ws) ''[]'') \<and>
      toRelationResDtoType (foldr wrapType (replicate n k) (x @ ''Entity'')) =
        x @ ''ResDto'' @ concat (replicate n ''[]'')) \<and>
   (list_all isWordChar y \<and> \<not> endsWith y ''Entity'' \<longrightarrow> toRelationResDtoType y = y)"
proof -
  have examples: "toRelationResDtoType ''DocEntity'' = ''DocResDto'' \<and>
      toRelationResDtoType ''DocEntity[]'' = ''DocResDto[]'' \<and>
      toRelationResDtoType ''Array<DocEntity>'' = ''DocResDto[]''"
    by code_simp
  have nested: "toRelationResDtoType (foldr wrapType (replicate n k) (x @ ''Entity'')) =
      x @ ''ResDto'' @ concat (replicate n ''[]'')" if "list_all isWordChar x"
    using toRel_wrapped [OF that, of "replicate n k"] by simp
  show ?thesis
    using examples nested toRel_suffix_step [of s] toRel_generic_step [of s]
      toRel_wrapped [of x ws] toRel_other_name [of y]
    by blast
qed

theorem toRelationResDtoType_wrappers_witness:
  "list_all isWordChar ''Comment'' \<and>
   toRelationResDtoType ''Array<Array<CommentEntity>>'' = ''CommentResDto[][]'' \<and>
   toRelationResDtoType ''CommentEntity[][][]'' = ''CommentResDto[][][]'' \<and>
   toRelationResDtoType ''Array<CommentEntity[]>[]'' = ''CommentResDto[][][]'' \<and>
   list_all isWordChar ''string'' \<and> \<not> endsWith ''string'' ''Entity'' \<and>
   toRelationResDtoType ''string'' = ''string''"
proof -
  have w: "list_all isWordChar ''Comment''"
    by code_simp
  have y: "list_all isWordChar ''string''" "\<not> endsWith ''string'' ''Entity''"
    by code_simp+
  have g: "foldr wrapType (replicate 2 GenericArray) (''Comment'' @ ''Entity'') =
      ''Array<Array<CommentEntity>>''"
    and p: "foldr wrapType (replicate 3 PlainArray) (''Comment'' @ ''Entity'') =
      ''CommentEntity[][][]''"
    and m: "foldr wrapType [PlainArray, GenericArray, PlainArray] (''Comment'' @ ''Entity'') =
      ''Array<CommentEntity[]>[]''"
    by (simp_all add: numeral_2_eq_2 numeral_3_eq_3)
  have "toRelationResDtoType ''Array<Array<CommentEntity>>'' = ''CommentResDto[][]''"
    using w toRelationResDtoType_wrappers [of _ "''Comment''" _ 2 GenericArray]
    unfolding g by (simp add: numeral_2_eq_2)
  moreover have "toRelationResDtoType ''CommentEntity[][][]'' = ''CommentResDto[][][]''"
    using w toRelationResDtoType_wrappers [of _ "''Comment''" _ 3 PlainArray]
    unfolding p by (simp add: numeral_3_eq_3)
  moreover have "toRelationResDtoType ''Array<CommentEntity[]>[]'' = ''CommentResDto[][][]''"
    using w toRelationResDtoType_wrappers [of _ "''Comment''" "[PlainArray, GenericArray, PlainArray]"]
    unfolding m by simp
  moreover have "toRelationResDtoType ''string'' = ''string''"
    using y toRelationResDtoType_wrappers [where y = "''string''"] by blast
  ultimately show ?thesis
    using w y by simp
qed

subsection \<open>The class name\<close>

text \<open>
  C3. \<^verbatim>\<open>parseEntity\<close> gives \<^verbatim>\<open>null\<close> if and only if no part of the text is an
  exported class declaration with an identifier; there is then no partial result. If it
  gives an entity, the class name is the identifier captured at such a declaration, and
  the base name is the class name without a trailing \<^verbatim>\<open>Entity\<close>, or the class name
  itself if it does not end so.
\<close>

theorem parseEntity_class:
  "(parseEntity s = None \<longleftrightarrow> \<not> spec_hasExportedClass s) \<and>
   (parseEntity s = Some p \<longrightarrow>
      (\<exists>pre r. s = pre @ r \<and> spec_exportedClassAt r (className p)) \<and>
      ((\<exists>b. className p = b @ ''Entity'' \<and> baseName p = b) \<or>
       ((\<forall>b. className p \<noteq> b @ ''Entity'') \<and> baseName p = className p)))"
proof -
  have none: "parseEntity s = None \<longleftrightarrow> \<not> spec_hasExportedClass s"
  proof (cases "classMatch s")
    case None
    then show ?thesis using classMatch_None_iff [of s] by (simp add: parseEntity_def)
  next
    case (Some c)
    then have "firstMatch classMatchAt s = Some c" by (simp add: classMatch_def)
    then obtain n where "classMatchAt (drop n s) = Some c" by (auto simp: firstMatch_Some)
    then have "c \<noteq> []" by (auto simp: classMatchAt_def Let_def split: option.splits if_splits)
    with Some show ?thesis using classMatch_None_iff [of s] by (simp add: parseEntity_def)
  qed
  have some: "(\<exists>pre r. s = pre @ r \<and> spec_exportedClassAt r (className p)) \<and>
      ((\<exists>b. className p = b @ ''Entity'' \<and> baseName p = b) \<or>
       ((\<forall>b. className p \<noteq> b @ ''Entity'') \<and> baseName p = className p))"
    if p: "parseEntity s = Some p"
  proof -
    from p obtain c where c: "classMatch s = Some c" "className p = c"
      "baseName p = replaceSuffix ''Entity'' [] c"
      by (auto simp: parseEntity_def split: option.splits if_splits)
    from c(1) obtain n where "classMatchAt (drop n s) = Some c"
      by (auto simp: classMatch_def firstMatch_Some)
    then have "spec_exportedClassAt (drop n s) c" by (rule classMatchAt_sound)
    moreover have "s = take n s @ drop n s" by simp
    ultimately have 1: "\<exists>pre r. s = pre @ r \<and> spec_exportedClassAt r (className p)"
      using c(2) by blast
    have 2: "(\<exists>b. className p = b @ ''Entity'' \<and> baseName p = b) \<or>
       ((\<forall>b. className p \<noteq> b @ ''Entity'') \<and> baseName p = className p)"
      using replaceSuffix_cases [of c "''Entity''" "[]"] c(2,3) by simp
    from 1 2 show ?thesis by blast
  qed
  from none some show ?thesis by blast
qed

theorem parseEntity_class_witness:
  "parseEntity exampleSource = Some exampleEntity \<and>
   className exampleEntity = ''DocEntity'' \<and> baseName exampleEntity = ''Doc'' \<and>
   (\<exists>pre r. exampleSource = pre @ r \<and> spec_exportedClassAt r ''DocEntity'') \<and>
   parseEntity noClassSource = None \<and> \<not> spec_hasExportedClass noClassSource"
proof -
  have e: "parseEntity exampleSource = Some exampleEntity"
    by code_simp
  have n: "parseEntity noClassSource = None"
    by code_simp
  have c: "className exampleEntity = ''DocEntity''" "baseName exampleEntity = ''Doc''"
    by (simp_all add: exampleEntity_def)
  show ?thesis
    using e n c parseEntity_class [of exampleSource exampleEntity] parseEntity_class [of noClassSource]
    by simp
qed

subsection \<open>Booleans stored as tinyint\<close>

text \<open>
  C8, as stated, fails, in both of its parts. It says that \<^verbatim>\<open>isTinyIntBoolean\<close> holds
  only with a type attribute of value tinyint and a width attribute of value exactly 1:
  it holds for a column of width 1.5, and for a column whose attributes are named
  \<^verbatim>\<open>subType\<close> and \<^verbatim>\<open>maxwidth\<close>. And it says that every such field is declared
  \<^verbatim>\<open>number\<close> with the boolean transform in the request DTO and \<^verbatim>\<open>boolean\<close> with the
  boolean transform in the response DTO: a property with such a column and a relation
  decorator is left out of the request DTO and has the relation's type and no transform
  in the response DTO, and one with such a column and an audit decorator is left out of
  the request DTO.
\<close>

theorem tinyint_counterexample:
  "parseEntity tinyOddSource = Some tinyOddEntity \<and>
   list_all isTinyIntBoolean [ownerField, deletedField, ratioField, kindField] \<and>
   isRelation ownerField \<and> isAudit deletedField \<and>
   spec_typeAttrTinyint (orEmpty (rawColumnMeta ownerField)) \<and>
   spec_widthAttrExactlyOne (orEmpty (rawColumnMeta ownerField)) \<and>
   \<not> spec_widthAttrExactlyOne (orEmpty (rawColumnMeta ratioField)) \<and>
   \<not> spec_typeAttrTinyint (orEmpty (rawColumnMeta kindField)) \<and>
   \<not> spec_widthAttrExactlyOne (orEmpty (rawColumnMeta kindField)) \<and>
   genDocDto tinyOddSource tinyOddEntity strictOpts = joinWith nl
     [''import { IsString, IsOptional, IsInt, IsNotEmpty, IsDate, IsEnum } from 'class-validator';'',
      ''import { Transform } from 'class-transformer';'',
      ''import { PartialType } from '@nestjs/mapped-types';'',
      ''import { CommonDto } from 'src/common/dto/common.dto';'',
      ''import { boolTransformer, dateTransformer } from 'src/common/util/transformer';'',
      [],
      ''export class FlagDto extends CommonDto {'',
      ''  @Transform(({ value }) => boolTransformer.to(value))'',
      ''  @IsInt()'',
      ''  @IsOptional()'',
      ''  ratio: number;'',
      [],
      ''  @Transform(({ value }) => boolTransformer.to(value))'',
      ''  @IsInt()'',
      ''  @IsOptional()'',
      ''  kind: number;'',
      [],
      ''}'',
      [],
      ''export class FlagReqDto extends PartialType(FlagDto) {}''] \<and>
   genResponseDto tinyOddSource tinyOddEntity = joinWith nl
     [''import { Expose, Transform } from 'class-transformer';'',
      ''import { boolTransformer, dateTransformer } from 'src/common/util/transformer';'',
      [],
      ''export class FlagResDto {'',
      ''  @Expose()'',
      ''  owner: OwnerResDto;'',
      [],
      ''  @Transform(({ value }) => boolTransformer.from(value))'',
      ''  @Expose()'',
      ''  deleted: boolean;'',
      [],
      ''  @Transform(({ value }) => boolTransformer.from(value))'',
      ''  @Expose()'',
      ''  ratio: boolean;'',
      [],
      ''  @Transform(({ value }) => boolTransformer.from(value))'',
      ''  @Expose()'',
      ''  kind: boolean;'',
      [],
      ''}'']"
  by code_simp

text \<open>
  C8, amended. \<^verbatim>\<open>isTinyIntBoolean\<close> holds only when the field has column metadata whose
  text has the letters \<^verbatim>\<open>type\<close>, a colon and the quoted letters \<^verbatim>\<open>tinyint\<close> (in any
  case of letters), and the letters \<^verbatim>\<open>width\<close>, a colon and the digit \<^verbatim>\<open>1\<close> with no
  word character after it. For such a field of the entity that is neither a relation nor
  an audit column, the text of the request DTO has the transform
  \<^verbatim>\<open>boolTransformer.to\<close>, then the date transform if there is one and the validators,
  then the declaration with the type \<^verbatim>\<open>number\<close>. For such a field that is no relation,
  the text of the response DTO has the transform \<^verbatim>\<open>boolTransformer.from\<close>, then the
  date transform if there is one, then the exposure marker and the declaration with the
  type \<^verbatim>\<open>boolean\<close>.
\<close>

theorem tinyint_boolean_fields:
  "(isTinyIntBoolean f \<longrightarrow>
      (\<exists>m. rawColumnMeta f = Some m \<and> tinyintTypeText m \<and> widthOneText m)) \<and>
   (isTinyIntBoolean f \<and> \<not> isRelation f \<and> \<not> isAudit f \<and> f \<in> set (fields_list p) \<longrightarrow>
      (\<exists>pre mid post. genDocDto src p opts =
           pre @ ''  @Transform(({ value }) => boolTransformer.to(value))'' @ nl @
           concat (map (\<lambda>l. l @ nl) mid) @ ''  '' @ name f @ '': number;'' @ nl @ post \<and>
         mid = (if isDateColumn f
                then [''  @Transform(({ value }) => dateTransformer.to(value))''] else []) @
               map (\<lambda>d. ''  '' @ d) (getValidatorDecorators f (\<not> isRequired opts f)))) \<and>
   (isTinyIntBoolean f \<and> \<not> isRelation f \<and> f \<in> set (fields_list p) \<longrightarrow>
      (\<exists>pre mid post. genResponseDto src p =
           pre @ ''  @Transform(({ value }) => boolTransformer.from(value))'' @ nl @
           concat (map (\<lambda>l. l @ nl) mid) @ ''  @Expose()'' @ nl @
           ''  '' @ name f @ '': boolean;'' @ nl @ post \<and>
         mid = (if isDateColumn f \<and> \<not> isAudit f
                then [''  @Transform(({ value }) => dateTransformer.from(value))''] else [])))"
proof -
  define dmid where "dmid = (if isDateColumn f
                then [''  @Transform(({ value }) => dateTransformer.to(value))''] else []) @
               map (\<lambda>d. ''  '' @ d) (getValidatorDecorators f (\<not> isRequired opts f))"
  define rmid where "rmid = (if isDateColumn f \<and> \<not> isAudit f
                then [''  @Transform(({ value }) => dateTransformer.from(value))''] else [])"
  have meta: "\<exists>m. rawColumnMeta f = Some m \<and> tinyintTypeText m \<and> widthOneText m"
    if t: "isTinyIntBoolean f"
  proof (cases "rawColumnMeta f")
    case None
    with t show ?thesis
      by (simp add: isTinyIntBoolean_def orEmpty_def reColumnOpen_def testAnywhere_def lit_def startsWith_def)
  next
    case (Some m)
    with t have "reTinyintType m" "reWidthOne m"
      by (simp_all add: isTinyIntBoolean_def orEmpty_def Let_def)
    then have "tinyintTypeText m" "widthOneText m"
      by (simp_all add: reTinyintType_sound reWidthOne_sound)
    with Some show ?thesis by simp
  qed
  have req: "\<exists>pre mid post. genDocDto src p opts =
           pre @ ''  @Transform(({ value }) => boolTransformer.to(value))'' @ nl @
           concat (map (\<lambda>l. l @ nl) mid) @ ''  '' @ name f @ '': number;'' @ nl @ post \<and>
         mid = dmid"
    if t: "isTinyIntBoolean f" and k: "\<not> isRelation f" "\<not> isAudit f" and mem: "f \<in> set (fields_list p)"
  proof -
    have kept: "f \<in> set (requestFields p)"
      using k mem by (simp add: requestFields_def)
    have shape: "docFieldLines opts f =
        (''  @Transform(({ value }) => boolTransformer.to(value))'' # dmid) @
        [''  '' @ name f @ '': number;'', []]"
      using t by (simp add: docFieldLines_def Let_def dmid_def isDateColumn_def mapTsType_def)
    obtain pre post where "genDocDto src p opts =
        pre @ concat (map (\<lambda>l. l @ nl) (''  @Transform(({ value }) => boolTransformer.to(value))'' # dmid)) @
        (''  '' @ name f @ '': number;'') @ nl @ post"
      using block_text [OF genDocDto_block [OF kept] shape] by blast
    then have "genDocDto src p opts =
           pre @ ''  @Transform(({ value }) => boolTransformer.to(value))'' @ nl @
           concat (map (\<lambda>l. l @ nl) dmid) @ ''  '' @ name f @ '': number;'' @ nl @ post \<and>
         dmid = dmid"
      by simp
    then show ?thesis by (intro exI)
  qed
  have res: "\<exists>pre mid post. genResponseDto src p =
           pre @ ''  @Transform(({ value }) => boolTransformer.from(value))'' @ nl @
           concat (map (\<lambda>l. l @ nl) mid) @ ''  @Expose()'' @ nl @
           ''  '' @ name f @ '': boolean;'' @ nl @ post \<and>
         mid = rmid"
    if t: "isTinyIntBoolean f" and k: "\<not> isRelation f" and mem: "f \<in> set (fields_list p)"
  proof -
    have shape: "resFieldLines f =
        (''  @Transform(({ value }) => boolTransformer.from(value))'' # rmid @ [''  @Expose()'']) @
        [''  '' @ name f @ '': boolean;'', []]"
      using t k by (simp add: resFieldLines_def resTypeStr_def rmid_def)
    obtain pre post where "genResponseDto src p =
        pre @ concat (map (\<lambda>l. l @ nl)
          (''  @Transform(({ value }) => boolTransformer.from(value))'' # rmid @ [''  @Expose()''])) @
        (''  '' @ name f @ '': boolean;'') @ nl @ post"
      using block_text [OF genResponseDto_block [OF mem] shape] by blast
    then have "genResponseDto src p =
           pre @ ''  @Transform(({ value }) => boolTransformer.from(value))'' @ nl @
           concat (map (\<lambda>l. l @ nl) rmid) @ ''  @Expose()'' @ nl @
           ''  '' @ name f @ '': boolean;'' @ nl @ post \<and>
         rmid = rmid"
      by simp
    then show ?thesis by (intro exI)
  qed
  show ?thesis
    unfolding dmid_def [symmetric] rmid_def [symmetric]
    using meta req res by (intro conjI impI) simp_all
qed

theorem tinyint_boolean_fields_witness:
  "parseEntity tinySource = Some tinyEntity \<and>
   isTinyIntBoolean activeField \<and> \<not> isRelation activeField \<and> \<not> isAudit activeField \<and>
   activeField \<in> set (fields_list tinyEntity) \<and>
   (\<exists>m. rawColumnMeta activeField = Some m \<and> tinyintTypeText m \<and> widthOneText m) \<and>
   (\<exists>pre post. genDocDto tinySource tinyEntity strictOpts =
      pre @ ''  @Transform(({ value }) => boolTransformer.to(value))'' @ nl @
      ''  @IsOptional()'' @ nl @ ''  active: number;'' @ nl @ post) \<and>
   (\<exists>pre post. genResponseDto tinySource tinyEntity =
      pre @ ''  @Transform(({ value }) => boolTransformer.from(value))'' @ nl @
      ''  @Expose()'' @ nl @ ''  active: boolean;'' @ nl @ post) \<and>
   genDocDto tinySource tinyEntity strictOpts = joinWith nl
     [''import { IsString, IsOptional, IsInt, IsNotEmpty, IsDate, IsEnum } from 'class-validator';'',
      ''import { Transform } from 'class-transformer';'',
      ''import { PartialType } from '@nestjs/mapped-types';'',
      ''import { CommonDto } from 'src/common/dto/common.dto';'',
      ''import { boolTransformer, dateTransformer } from 'src/common/util/transformer';'',
      [],
      ''export class FlagDto extends CommonDto {'',
      ''  @Transform(({ value }) => boolTransformer.to(value))'',
      ''  @IsOptional()'',
      ''  active: number;'',
      [],
      ''}'',
      [],
      ''export class FlagReqDto extends PartialType(FlagDto) {}''] \<and>
   genResponseDto tinySource tinyEntity = joinWith nl
     [''import { Expose, Transform } from 'class-transformer';'',
      ''import { boolTransformer, dateTransformer } from 'src/common/util/transformer';'',
      [],
      ''export class FlagResDto {'',
      ''  @Transform(({ value }) => boolTransformer.from(value))'',
      ''  @Expose()'',
      ''  active: boolean;'',
      [],
      ''}'']"
proof -
  note t = tinyint_boolean_fields [of activeField tinyEntity tinySource strictOpts]
  have p: "parseEntity tinySource = Some tinyEntity"
    by code_simp
  have h: "isTinyIntBoolean activeField" "\<not> isRelation activeField" "\<not> isAudit activeField"
    by code_simp+
  have mem: "activeField \<in> set (fields_list tinyEntity)"
    by (simp add: tinyEntity_def)
  have meta: "\<exists>m. rawColumnMeta activeField = Some m \<and> tinyintTypeText m \<and> widthOneText m"
    using t [THEN conjunct1, THEN mp, OF h(1)] .
  have dmid: "(if isDateColumn activeField
                then [''  @Transform(({ value }) => dateTransformer.to(value))''] else []) @
               map (\<lambda>d. ''  '' @ d)
                 (getValidatorDecorators activeField (\<not> isRequired strictOpts activeField)) =
              [''  @IsOptional()'']"
    by code_simp
  have rmid: "(if isDateColumn activeField \<and> \<not> isAudit activeField
                then [''  @Transform(({ value }) => dateTransformer.from(value))''] else []) = []"
    by code_simp
  obtain pre mid post where "genDocDto tinySource tinyEntity strictOpts =
           pre @ ''  @Transform(({ value }) => boolTransformer.to(value))'' @ nl @
           concat (map (\<lambda>l. l @ nl) mid) @ ''  '' @ name activeField @ '': number;'' @ nl @ post"
    and "mid = [''  @IsOptional()'']"
    using t [THEN conjunct2, THEN conjunct1, THEN mp, OF conjI [OF h(1) conjI [OF h(2) conjI [OF h(3) mem]]]]
    unfolding dmid by blast
  then have "genDocDto tinySource tinyEntity strictOpts =
      pre @ ''  @Transform(({ value }) => boolTransformer.to(value))'' @ nl @
      ''  @IsOptional()'' @ nl @ ''  active: number;'' @ nl @ post"
    by (simp add: activeField_def)
  then have req: "\<exists>pre post. genDocDto tinySource tinyEntity strictOpts =
      pre @ ''  @Transform(({ value }) => boolTransformer.to(value))'' @ nl @
      ''  @IsOptional()'' @ nl @ ''  active: number;'' @ nl @ post"
    by (intro exI)
  obtain pre' mid' post' where "genResponseDto tinySource tinyEntity =
           pre' @ ''  @Transform(({ value }) => boolTransformer.from(value))'' @ nl @
           concat (map (\<lambda>l. l @ nl) mid') @ ''  @Expose()'' @ nl @
           ''  '' @ name activeField @ '': boolean;'' @ nl @ post'"
    and "mid' = []"
    using t [THEN conjunct2, THEN conjunct2, THEN mp, OF conjI [OF h(1) conjI [OF h(2) mem]]]
    unfolding rmid by blast
  then have "genResponseDto tinySource tinyEntity =
      pre' @ ''  @Transform(({ value }) => boolTransformer.from(value))'' @ nl @
      ''  @Expose()'' @ nl @ ''  active: boolean;'' @ nl @ post'"
    by (simp add: activeField_def)
  then have res: "\<exists>pre post. genResponseDto tinySource tinyEntity =
      pre @ ''  @Transform(({ value }) => boolTransformer.from(value))'' @ nl @
      ''  @Expose()'' @ nl @ ''  active: boolean;'' @ nl @ post"
    by (intro exI)
  have w: "genDocDto tinySource tinyEntity strictOpts = joinWith nl
     [''import { IsString, IsOptional, IsInt, IsNotEmpty, IsDate, IsEnum } from 'class-validator';'',
      ''import { Transform } from 'class-transformer';'',
      ''import { PartialType } from '@nestjs/mapped-types';'',
      ''import { CommonDto } from 'src/common/dto/common.dto';'',
      ''import { boolTransformer, dateTransformer } from 'src/common/util/transformer';'',
      [],
      ''export class FlagDto extends CommonDto {'',
      ''  @Transform(({ value }) => boolTransformer.to(value))'',
      ''  @IsOptional()'',
      ''  active: number;'',
      [],
      ''}'',
      [],
      ''export class FlagReqDto extends PartialType(FlagDto) {}'']"
    by code_simp
  have v: "genResponseDto tinySource tinyEntity = joinWith nl
     [''import { Expose, Transform } from 'class-transformer';'',
      ''import { boolTransformer, dateTransformer } from 'src/common/util/transformer';'',
      [],
      ''export class FlagResDto {'',
      ''  @Transform(({ value }) => boolTransformer.from(value))'',
      ''  @Expose()'',
      ''  active: boolean;'',
      [],
      ''}'']"
    by code_simp
  show ?thesis
    using p h mem meta req res w v by (intro conjI)
qed

subsection \<open>Decorators and fields collected by the scan\<close>

text \<open>
  C9, as stated, fails: it says that every decorator line before the first line that
  matches the declaration pattern is attached to the first field. A decorator line inside
  a metadata capture that closes on a later line is taken into the metadata text and
  skipped by the outer loop. Here line 2, \<^verbatim>\<open>@Index()\<close>, lies before the first property
  line (line 4) and is not among the decorators of the first field.
\<close>

theorem swallowed_decorator_counterexample:
  "isDecoratorLine (splitLines swallowedSource ! 2) \<and>
   trim (splitLines swallowedSource ! 2) = ''@Index()'' \<and>
   list_all (\<lambda>j. \<not> isPropertyLine (splitLines swallowedSource ! j)) [0, 1, 2, 3] \<and>
   isPropertyLine (splitLines swallowedSource ! 4) \<and>
   visited (splitLines swallowedSource) 0 = [0, 1, 4, 5] \<and>
   map_option (\<lambda>p. map decorators (fields_list p)) (parseEntity swallowedSource) =
     Some [[''@Column({ default: ('']]"
  by code_simp

text \<open>
  C9, amended. Let \<open>k\<close> be the first property line the scan visits, and \<open>pre\<close> the lines
  it visits before (a line inside a metadata capture that closes later is not visited).
  Then \<^verbatim>\<open>parseEntity\<close> emits a field, and the decorators of the first field are the
  decorator lines among \<open>pre\<close>, trimmed and in order: those above the class header too,
  since only a property line clears the buffer.
\<close>

theorem decorators_of_first_field:
  assumes "parseEntity src = Some p"
    and "visited (splitLines src) 0 = pre @ k # post"
    and "list_all (\<lambda>j. \<not> isPropertyLine (splitLines src ! j)) pre"
    and "isPropertyLine (splitLines src ! k)"
  shows "fields_list p \<noteq> [] \<and>
         decorators (hd (fields_list p)) =
           map (\<lambda>j. trim (splitLines src ! j)) (filter (\<lambda>j. isDecoratorLine (splitLines src ! j)) pre)"
proof -
  let ?lines = "splitLines src"
  let ?s1 = "foldl (stepState ?lines) initState pre"
  let ?s2 = "stepState ?lines ?s1 k"
  have 1: "fieldsAcc ?s1 = [] \<and>
      decoratorBuf ?s1 = map (\<lambda>j. trim (?lines ! j)) (filter (\<lambda>j. isDecoratorLine (?lines ! j)) pre)"
    using fold_before_first_property [OF assms(3), of initState] by (simp add: initState_def)
  obtain f where f: "fieldsAcc ?s2 = fieldsAcc ?s1 @ [f]" "decorators f = decoratorBuf ?s1"
    using step_property(1) [OF assms(4), of ?s1] by blast
  obtain more where m: "fieldsAcc (foldl (stepState ?lines) ?s2 post) = fieldsAcc ?s2 @ more"
    using fold_fields_prefix [of ?lines ?s2 post] by blast
  have "parseFields src = fieldsAcc (foldl (stepState ?lines) ?s2 post)"
    by (simp add: parseFields_fold assms(2))
  then have "parseFields src = f # more"
    using m f(1) 1 by simp
  then show ?thesis
    using parseEntity_fields [OF assms(1)] f(2) 1 by simp
qed

theorem decorators_of_first_field_witness:
  "visited (splitLines multiLineSource) 0 = [0, 1, 2, 3] @ 6 # [7] \<and>
   list_all (\<lambda>j. \<not> isPropertyLine (splitLines multiLineSource ! j)) [0, 1, 2, 3] \<and>
   isPropertyLine (splitLines multiLineSource ! 6) \<and>
   map_option className (parseEntity multiLineSource) = Some ''DocEntity'' \<and>
   map_option (\<lambda>p. decorators (hd (fields_list p))) (parseEntity multiLineSource) =
     Some [''@Entity('docs')'', ''@Index()'', ''@Column({'']"
proof -
  obtain p where p: "parseEntity multiLineSource = Some p" "className p = ''DocEntity''"
  proof -
    have "map_option className (parseEntity multiLineSource) = Some ''DocEntity''"
      by code_simp
    then show ?thesis
      using that by auto
  qed
  have v: "visited (splitLines multiLineSource) 0 = [0, 1, 2, 3] @ 6 # [7]"
    by code_simp
  have n: "list_all (\<lambda>j. \<not> isPropertyLine (splitLines multiLineSource ! j)) [0, 1, 2, 3]"
    by code_simp
  have k: "isPropertyLine (splitLines multiLineSource ! 6)"
    by code_simp
  have d: "map (\<lambda>j. trim (splitLines multiLineSource ! j))
             (filter (\<lambda>j. isDecoratorLine (splitLines multiLineSource ! j)) [0, 1, 2, 3]) =
           [''@Entity('docs')'', ''@Index()'', ''@Column({'']"
    by code_simp
  have "decorators (hd (fields_list p)) = [''@Entity('docs')'', ''@Index()'', ''@Column({'']"
    using decorators_of_first_field [OF p(1) v n k] d by simp
  then show ?thesis
    using p v n k by simp
qed

text \<open>
  C10, as stated, fails: it says that the property declarations of every class of the
  text are merged into the result. A property line inside a metadata capture that closes
  on a later line is taken into the metadata text and skipped, as in C9. Here a
  parenthesis in a comment text keeps the capture that starts on line 1 open until line
  5: the scan visits the lines 0, 1, 6 and 7, and the property \<^verbatim>\<open>a\<close> of the first class
  (line 2) is not among the fields.
\<close>

theorem captured_property_counterexample:
  "classMatchAt (drop 0 capturedPropertySource) = Some ''AEntity'' \<and>
   classMatchAt (drop 71 capturedPropertySource) = Some ''BEntity'' \<and>
   isPropertyLine (splitLines capturedPropertySource ! 2) \<and>
   propertyOf (splitLines capturedPropertySource ! 2) = (''a'', ''string'') \<and>
   visited (splitLines capturedPropertySource) 0 = [0, 1, 6, 7] \<and>
   map_option (\<lambda>p. (className p, map (\<lambda>f. (name f, tsType f)) (fields_list p)))
     (parseEntity capturedPropertySource) = Some (''AEntity'', [(''b'', ''string'')])"
  by code_simp

text \<open>
  C10, amended. The class name of the result is the identifier of the first exported
  class declaration of the text: no declaration starts before it. The fields come from
  the scan of the whole text: their names and types are those of all the property lines
  the scan visits (a line inside a metadata capture that closes later is not visited), in
  the order of the text, whatever class they stand in. So with two or more exported
  classes the result has the name of the first and the visited properties of all.
\<close>

theorem fields_of_whole_text:
  assumes "parseEntity src = Some p"
  shows "(\<exists>n\<le>length src. spec_exportedClassAt (drop n src) (className p) \<and>
            (\<forall>k<n. \<forall>c. \<not> spec_exportedClassAt (drop k src) c)) \<and>
         map (\<lambda>f. (name f, tsType f)) (fields_list p) =
           map (\<lambda>j. propertyOf (splitLines src ! j))
             (filter (\<lambda>j. isPropertyLine (splitLines src ! j)) (visited (splitLines src) 0))"
proof -
  from assms have "classMatch src = Some (className p)"
    by (auto simp: parseEntity_def split: option.splits if_splits)
  then obtain n where n: "n \<le> length src" "classMatchAt (drop n src) = Some (className p)"
    "\<forall>k<n. classMatchAt (drop k src) = None"
    unfolding classMatch_def firstMatch_Some by blast
  have first: "\<forall>k<n. \<forall>c. \<not> spec_exportedClassAt (drop k src) c"
  proof (intro allI impI)
    fix k c assume "k < n"
    with n(3) have "classMatchAt (drop k src) = None" by blast
    then show "\<not> spec_exportedClassAt (drop k src) c"
      using classMatchAt_iff [of "drop k src" c] by simp
  qed
  have "spec_exportedClassAt (drop n src) (className p)"
    using n(2) by (rule classMatchAt_sound)
  with n(1) first have a: "\<exists>n\<le>length src. spec_exportedClassAt (drop n src) (className p) \<and>
            (\<forall>k<n. \<forall>c. \<not> spec_exportedClassAt (drop k src) c)"
    by blast
  have b: "map (\<lambda>f. (name f, tsType f)) (fields_list p) =
           map (\<lambda>j. propertyOf (splitLines src ! j))
             (filter (\<lambda>j. isPropertyLine (splitLines src ! j)) (visited (splitLines src) 0))"
    using fold_properties [of "splitLines src" initState "visited (splitLines src) 0"]
    by (simp add: parseEntity_fields [OF assms] parseFields_fold initState_def)
  from a b show ?thesis ..
qed
theorem fields_of_whole_text_witness:
  "parseEntity twoClassSource = Some twoClassEntity \<and>
   classMatchAt (drop 0 twoClassSource) = Some ''AEntity'' \<and>
   classMatchAt (drop 39 twoClassSource) = Some ''BEntity'' \<and>
   visited (splitLines twoClassSource) 0 = [0, 1, 2, 3, 4, 5] \<and>
   map (\<lambda>f. (name f, tsType f)) (fields_list twoClassEntity) =
     [(''id'', ''number''), (''label'', ''string'')] \<and>
   map (\<lambda>j. propertyOf (splitLines twoClassSource ! j))
     (filter (\<lambda>j. isPropertyLine (splitLines twoClassSource ! j)) [0, 1, 2, 3, 4, 5]) =
     [(''id'', ''number''), (''label'', ''string'')] \<and>
   (\<exists>n\<le>length twoClassSource. spec_exportedClassAt (drop n twoClassSource) ''AEntity'' \<and>
      (\<forall>k<n. \<forall>c. \<not> spec_exportedClassAt (drop k twoClassSource) c))"
proof -
  have p: "parseEntity twoClassSource = Some twoClassEntity"
    by code_simp
  have c: "classMatchAt (drop 0 twoClassSource) = Some ''AEntity''"
    "classMatchAt (drop 39 twoClassSource) = Some ''BEntity''"
    by code_simp+
  have v: "visited (splitLines twoClassSource) 0 = [0, 1, 2, 3, 4, 5]"
    by code_simp
  have n: "className twoClassEntity = ''AEntity''"
    by (simp add: twoClassEntity_def)
  have f: "map (\<lambda>f. (name f, tsType f)) (fields_list twoClassEntity) =
     [(''id'', ''number''), (''label'', ''string'')]"
    by (simp add: twoClassEntity_def)
  note t = fields_of_whole_text [OF p]
  have l: "map (\<lambda>j. propertyOf (splitLines twoClassSource ! j))
     (filter (\<lambda>j. isPropertyLine (splitLines twoClassSource ! j)) [0, 1, 2, 3, 4, 5]) =
     [(''id'', ''number''), (''label'', ''string'')]"
    using t f unfolding v by simp
  have e: "\<exists>n\<le>length twoClassSource. spec_exportedClassAt (drop n twoClassSource) ''AEntity'' \<and>
      (\<forall>k<n. \<forall>c. \<not> spec_exportedClassAt (drop k twoClassSource) c)"
    using t unfolding n by (rule conjunct1)
  show ?thesis
    using p c v f l e by (intro conjI)
qed

end
